theory Spec2Isabelle
  imports Complex_Main "HOL-Library.Sublist"
begin

section \<open>Values of the host language\<close>

text \<open>
  The component \<^verbatim>\<open>src/components/VideoEncoder.tsx\<close> works on JavaScript numbers and
  strings. A number is modelled by the rational it denotes: the code only compares numbers,
  divides and subtracts them, takes floors and prints them. \<^verbatim>\<open>NaN\<close> and the infinities
  are not values of the model (the number inputs of the form hand over a number only when
  the text parses as one). Division and subtraction round their result to a double, as
  written out below. A string is the list of the bytes of its UTF-8 encoding, so the Chinese
  literals of the source are written byte by byte.
\<close>

type_synonym number = rat
type_synonym bytes = "nat list"
type_synonym url = string

definition digit_char :: "nat \<Rightarrow> char" where
  "digit_char d = ''0123456789'' ! (d mod 10)"

function nat_digits :: "nat \<Rightarrow> string" where
  "nat_digits n = (if n < 10 then [digit_char n] else nat_digits (n div 10) @ [digit_char (n mod 10)])"
  by pat_completeness auto
termination
  by (relation "measure id") auto

declare nat_digits.simps [simp del]

fun frac_digits :: "nat \<Rightarrow> rat \<Rightarrow> string" where
  "frac_digits 0 r = []"
| "frac_digits (Suc k) r =
     (if r = 0 then []
      else digit_char (nat \<lfloor>r * 10\<rfloor>) # frac_digits k (r * 10 - of_int \<lfloor>r * 10\<rfloor>))"

text \<open>
  \<^verbatim>\<open>`${x}`\<close> on a number: the conversion \<^verbatim>\<open>Number::toString\<close> of the runtime, written
  out for the numbers the form can produce: a sign, the integer digits and, when the number
  is not an integer, a point and the fraction digits. It is the runtime's output for every
  decimal of at most 15 significant digits whose magnitude is 0 or lies in
  \<open>[10\<^sup>-\<^sup>6, 10\<^sup>2\<^sup>1)\<close> (no exponent notation there); at most 17 fraction digits are printed.
\<close>

definition Number_toString :: "number \<Rightarrow> string" where
  "Number_toString x =
     (let a = \<bar>x\<bar>; i = \<lfloor>a\<rfloor>; f = a - of_int i
      in (if x < 0 then ''-'' else '''') @ nat_digits (nat i) @
         (if f = 0 then '''' else ''.'' @ frac_digits 17 f))"

text \<open>
  \<^verbatim>\<open>s.replace(pat, rep)\<close> with a string pattern: the first occurrence of \<open>pat\<close> in
  \<open>s\<close> is replaced, the rest of \<open>s\<close> is kept; without an occurrence \<open>s\<close> is returned.
  (The replacement \<^verbatim>\<open>"0x"\<close> of the source holds no \<^verbatim>\<open>$\<close> pattern.)
\<close>

fun replace :: "string \<Rightarrow> string \<Rightarrow> string \<Rightarrow> string" where
  "replace [] pat rep = (if pat = [] then rep else [])"
| "replace (c # cs) pat rep =
     (if prefix pat (c # cs) then rep @ drop (length pat) (c # cs)
      else c # replace cs pat rep)"

subsection \<open>Arithmetic on doubles\<close>

text \<open>
  The numbers of the runtime are IEEE 754 doubles: 53 significant bits, exponents from
  \<open>-1022\<close> to \<open>1023\<close>, results rounded to the nearest double, ties to the even
  significand. \<open>bit_length n\<close> is the number of binary digits of \<open>n\<close>; \<open>ilog2 q\<close> is
  the exponent \<open>e\<close> with \<open>2\<^sup>e \<le> q < 2\<^sup>e\<^sup>+\<^sup>1\<close>, for \<open>q > 0\<close>; \<open>to_double q\<close> is the double
  nearest to \<open>q\<close> (a multiple of \<open>2\<^sup>e\<^sup>-\<^sup>5\<^sup>2\<close>, of \<open>2\<^sup>-\<^sup>1\<^sup>0\<^sup>7\<^sup>4\<close> below the normal range).
  A result of magnitude \<open>2\<^sup>1\<^sup>0\<^sup>2\<^sup>4\<close> or more, the runtime's \<^verbatim>\<open>Infinity\<close>, is outside the
  model. An operand that is not a double stands for the double nearest to it, as a decimal
  literal does.
\<close>

function bit_length :: "int \<Rightarrow> nat" where
  "bit_length n = (if n \<le> 0 then 0 else Suc (bit_length (n div 2)))"
  by pat_completeness auto
termination
  by (relation "measure nat") auto

declare bit_length.simps [simp del]

definition ilog2 :: "rat \<Rightarrow> int" where
  "ilog2 q =
     (let d = int (bit_length (fst (quotient_of q))) - int (bit_length (snd (quotient_of q)))
      in if 2 powi d \<le> q then d else d - 1)"

definition round_half_even :: "rat \<Rightarrow> int" where
  "round_half_even x =
     (let f = \<lfloor>x\<rfloor>; d = x - of_int f
      in if d < 1 / 2 then f else if 1 / 2 < d then f + 1
         else if f mod 2 = 0 then f else f + 1)"

definition to_double :: "rat \<Rightarrow> rat" where
  "to_double q =
     (if q = 0 then 0
      else (let ulp = 2 powi (max (ilog2 \<bar>q\<bar>) (- 1022) - 52)
            in of_int (round_half_even (q / ulp)) * ulp))"

text \<open>\<^verbatim>\<open>a / b\<close> and \<^verbatim>\<open>a - b\<close> on numbers.\<close>

definition float_div :: "number \<Rightarrow> number \<Rightarrow> number" where
  "float_div a b = to_double (to_double a / to_double b)"

definition float_sub :: "number \<Rightarrow> number \<Rightarrow> number" where
  "float_sub a b = to_double (to_double a - to_double b)"

section \<open>Presets and limits\<close>

datatype ScalingStrategy = Cover | Contain | Fill

record Preset =
  name :: string
  resolution :: "number option"
  bitrate :: "string option"

text \<open>The three preset names of the source, \<^verbatim>\<open>PRESETS[0..2].name\<close>, in UTF-8.\<close>

definition NAME_SD :: string where
  "NAME_SD = [CHR 0xE6, CHR 0xA0, CHR 0x87, CHR 0xE6, CHR 0xB8, CHR 0x85,
              CHR 0xE6, CHR 0x96, CHR 0xB9, CHR 0xE5, CHR 0xBD, CHR 0xA2]"

definition NAME_HD :: string where
  "NAME_HD = [CHR 0xE9, CHR 0xAB, CHR 0x98, CHR 0xE6, CHR 0xB8, CHR 0x85,
              CHR 0xE6, CHR 0x96, CHR 0xB9, CHR 0xE5, CHR 0xBD, CHR 0xA2]"

definition NAME_CUSTOM :: string where
  "NAME_CUSTOM = [CHR 0xE8, CHR 0x87, CHR 0xAA, CHR 0xE5, CHR 0xAE, CHR 0x9A,
                  CHR 0xE4, CHR 0xB9, CHR 0x89]"

definition PRESETS :: "Preset list" where
  "PRESETS =
     [\<lparr>name = NAME_SD, resolution = Some 480, bitrate = Some ''1M''\<rparr>,
      \<lparr>name = NAME_HD, resolution = Some 720, bitrate = Some ''1.5M''\<rparr>,
      \<lparr>name = NAME_CUSTOM, resolution = None, bitrate = None\<rparr>]"

definition MIN_RESOLUTION :: number where "MIN_RESOLUTION = 100"
definition MAX_RESOLUTION :: number where "MAX_RESOLUTION = 1920"
definition MIN_BITRATE :: number where "MIN_BITRATE = 1 / 2"
definition MAX_BITRATE :: number where "MAX_BITRATE = 10"
definition DEFAULT_RESOLUTION :: number where "DEFAULT_RESOLUTION = 480"
definition DEFAULT_BITRATE :: number where "DEFAULT_BITRATE = 1"

section \<open>Validation of the custom settings\<close>

text \<open>
  The two messages of \<^verbatim>\<open>validateCustomSettings\<close>. In English: "the resolution must be
  between MIN and MAX" and "the bitrate must be between MIN and MAX Mbps".
\<close>

definition resolution_message :: string where
  "resolution_message =
     [CHR 0xE5, CHR 0x88, CHR 0x86, CHR 0xE8, CHR 0xBE, CHR 0xA8, CHR 0xE7, CHR 0x8E, CHR 0x87,
      CHR 0xE5, CHR 0xBF, CHR 0x85, CHR 0xE9, CHR 0xA1, CHR 0xBB, CHR 0xE5, CHR 0x9C, CHR 0xA8]
     @ Number_toString MIN_RESOLUTION @ [CHR 0xE5, CHR 0x88, CHR 0xB0]
     @ Number_toString MAX_RESOLUTION @ [CHR 0xE4, CHR 0xB9, CHR 0x8B, CHR 0xE9, CHR 0x97, CHR 0xB4]"

definition bitrate_message :: string where
  "bitrate_message =
     [CHR 0xE6, CHR 0xAF, CHR 0x94, CHR 0xE7, CHR 0x89, CHR 0xB9, CHR 0xE7, CHR 0x8E, CHR 0x87,
      CHR 0xE5, CHR 0xBF, CHR 0x85, CHR 0xE9, CHR 0xA1, CHR 0xBB, CHR 0xE5, CHR 0x9C, CHR 0xA8]
     @ Number_toString MIN_BITRATE @ [CHR 0xE5, CHR 0x88, CHR 0xB0]
     @ Number_toString MAX_BITRATE
     @ '' Mbps'' @ [CHR 0xE4, CHR 0xB9, CHR 0x8B, CHR 0xE9, CHR 0x97, CHR 0xB4]"

definition validateCustomSettings :: "number \<Rightarrow> number \<Rightarrow> string option" where
  "validateCustomSettings res br =
     (if res < MIN_RESOLUTION \<or> res > MAX_RESOLUTION then Some resolution_message
      else if br < MIN_BITRATE \<or> br > MAX_BITRATE then Some bitrate_message
      else None)"

section \<open>The filter builder\<close>

text \<open>
  \<^verbatim>\<open>getScalingFilter\<close> closes over the scaling strategy and the background colour of
  the component; they are the first two arguments here. The template literal
  \<^verbatim>\<open>min(iw\\,ih)\<close> of the source denotes one backslash before the comma.
\<close>

definition backslash :: string where
  "backslash = [CHR 0x5C]"

definition getScalingFilter :: "ScalingStrategy \<Rightarrow> string \<Rightarrow> number \<Rightarrow> string" where
  "getScalingFilter scalingStrategy backgroundColor res =
     (if scalingStrategy = Cover then
        ''crop=min(iw'' @ backslash @ '',ih):min(iw'' @ backslash @ '',ih),scale=''
        @ Number_toString res @ '':'' @ Number_toString res
      else
        ''scale='' @ Number_toString res @ '':'' @ Number_toString res
        @ '':force_original_aspect_ratio=decrease,pad=''
        @ Number_toString res @ '':'' @ Number_toString res
        @ '':-1:-1:color='' @ replace backgroundColor ''#'' ''0x'')"

section \<open>The time estimator\<close>

text \<open>
  The state of \<^verbatim>\<open>useEncodingTime\<close>: its two state cells and the start time reference.
  \<open>encodingTimeEffect\<close> is the body of its effect, which the framework runs whenever
  \<open>isEncoding\<close> or \<open>progress\<close> has changed; \<open>now\<close> is the value of \<^verbatim>\<open>Date.now()\<close>,
  in milliseconds. Time stamps are integers far below \<open>2\<^sup>5\<^sup>3\<close>, so their difference is
  exact; the two divisions are divisions of doubles.
\<close>

record EncodingTime =
  elapsedTime :: int
  estimatedTime :: int
  startTimeRef :: "int option"

definition initialEncodingTime :: EncodingTime where
  "initialEncodingTime = \<lparr>elapsedTime = 0, estimatedTime = 0, startTimeRef = None\<rparr>"

definition encodingTimeEffect :: "bool \<Rightarrow> number \<Rightarrow> int \<Rightarrow> EncodingTime \<Rightarrow> EncodingTime" where
  "encodingTimeEffect isEnc prog now t =
     (if isEnc \<and> prog > 0 then
        (let currentTime = now;
             start = (case startTimeRef t of None \<Rightarrow> currentTime | Some s \<Rightarrow> s);
             elapsed = \<lfloor>float_div (of_int (currentTime - start)) 1000\<rfloor>
         in \<lparr>elapsedTime = elapsed,
             estimatedTime = (if prog > 0 then \<lfloor>float_div (of_int elapsed) prog\<rfloor>
                              else estimatedTime t),
             startTimeRef = Some start\<rparr>)
      else if \<not> isEnc then \<lparr>elapsedTime = 0, estimatedTime = 0, startTimeRef = None\<rparr>
      else t)"

text \<open>
  The argument of \<^verbatim>\<open>formatTime\<close> in the label of the remaining time (line 666):
  \<^verbatim>\<open>Math.max(estimatedTime - elapsedTime, 1)\<close>.
\<close>

definition remainingTime :: "EncodingTime \<Rightarrow> int" where
  "remainingTime t =
     max \<lfloor>float_sub (of_int (estimatedTime t)) (of_int (elapsedTime t))\<rfloor> 1"

section \<open>The component and its surroundings\<close>

text \<open>
  A selected file (\<^verbatim>\<open>File\<close>): its name and its content.
\<close>

record File =
  fileName :: string
  fileBytes :: bytes

text \<open>
  The state cells of \<^verbatim>\<open>VideoEncoder\<close> and of \<^verbatim>\<open>useFFmpeg\<close>, and, in \<open>liveUrls\<close>,
  the object URLs of encoded results that the browser has created and not yet revoked.
\<close>

record component =
  selectedPreset :: string
  customResolution :: number
  customBitrate :: number
  "file" :: "File option"
  isEncoding :: bool
  scalingStrategy :: ScalingStrategy
  backgroundColor :: string
  encodedVideoUrl :: "url option"
  loaded :: bool
  progress :: number
  logs :: "string list"
  liveUrls :: "url set"

text \<open>
  An awaited promise resolves, rejects (the \<^verbatim>\<open>await\<close> throws) or never settles (the
  function that awaits it never resumes).
\<close>

datatype 'a promise = Resolved 'a | Rejected | Pending

datatype engine_event = LogEvent string | ProgressEvent number

text \<open>
  What the engine and the browser answer, as far as \<^verbatim>\<open>handleEncode\<close> asks them:
  \<^verbatim>\<open>fetchFile\<close>, \<^verbatim>\<open>ffmpeg.writeFile\<close>, \<^verbatim>\<open>ffmpeg.exec\<close> (with the log lines and
  progress updates the engine emits before the call settles), \<^verbatim>\<open>ffmpeg.readFile\<close>, and
  the identifier the browser puts behind \<^verbatim>\<open>blob:\<close> in a new object URL.
\<close>

record env =
  fetchFile :: "File \<Rightarrow> bytes promise"
  writeFile :: "string \<Rightarrow> bytes \<Rightarrow> unit promise"
  exec :: "string list \<Rightarrow> engine_event list \<times> int promise"
  readFile :: "string \<Rightarrow> bytes promise"
  blobId :: "bytes \<Rightarrow> string \<Rightarrow> string"

definition createObjectURL :: "env \<Rightarrow> bytes \<Rightarrow> string \<Rightarrow> url" where
  "createObjectURL e content mime = ''blob:'' @ blobId e content mime"

record notification =
  title :: string
  message :: string
  color :: string

text \<open>
  The texts of the notifications, in English: "error", "success", "video encoding
  finished!", "video encoding failed".
\<close>

definition TITLE_ERROR :: string where
  "TITLE_ERROR = [CHR 0xE9, CHR 0x94, CHR 0x99, CHR 0xE8, CHR 0xAF, CHR 0xAF]"

definition TITLE_SUCCESS :: string where
  "TITLE_SUCCESS = [CHR 0xE6, CHR 0x88, CHR 0x90, CHR 0xE5, CHR 0x8A, CHR 0x9F]"

definition MESSAGE_DONE :: string where
  "MESSAGE_DONE =
     [CHR 0xE8, CHR 0xA7, CHR 0x86, CHR 0xE9, CHR 0xA2, CHR 0x91, CHR 0xE7, CHR 0xBC, CHR 0x96,
      CHR 0xE7, CHR 0xA0, CHR 0x81, CHR 0xE5, CHR 0xAE, CHR 0x8C, CHR 0xE6, CHR 0x88, CHR 0x90,
      CHR 0xEF, CHR 0xBC, CHR 0x81]"

definition MESSAGE_FAILED :: string where
  "MESSAGE_FAILED =
     [CHR 0xE8, CHR 0xA7, CHR 0x86, CHR 0xE9, CHR 0xA2, CHR 0x91, CHR 0xE7, CHR 0xBC, CHR 0x96,
      CHR 0xE7, CHR 0xA0, CHR 0x81, CHR 0xE5, CHR 0xA4, CHR 0xB1, CHR 0xE8, CHR 0xB4, CHR 0xA5]"

definition validationNotification :: "string \<Rightarrow> notification" where
  "validationNotification error = \<lparr>title = TITLE_ERROR, message = error, color = ''red''\<rparr>"

definition successNotification :: notification where
  "successNotification = \<lparr>title = TITLE_SUCCESS, message = MESSAGE_DONE, color = ''green''\<rparr>"

definition failureNotification :: notification where
  "failureNotification = \<lparr>title = TITLE_ERROR, message = MESSAGE_FAILED, color = ''red''\<rparr>"

text \<open>
  What \<^verbatim>\<open>handleEncode\<close> does, one event per statement with an effect, in the order of
  the source: the state setters, the calls to the engine, the listeners the engine runs
  (\<open>Listener\<close>), the creation of the object URL, the click on the download link, the
  notifications and the console.
\<close>

datatype event =
    SetEncodedVideoUrl "url option"
  | SetIsEncoding bool
  | ClearLogs
  | Notify notification
  | ConsoleError
  | CallFetchFile File
  | CallWriteFile string bytes
  | CallExec "string list"
  | CallReadFile string
  | Listener engine_event
  | CreateObjectURL bytes string url
  | Download url string

text \<open>A string or \<^verbatim>\<open>null\<close> in a condition: \<^verbatim>\<open>null\<close> and the empty string are falsy.\<close>

definition truthy :: "string option \<Rightarrow> bool" where
  "truthy v = (case v of None \<Rightarrow> False | Some x \<Rightarrow> x \<noteq> [])"

section \<open>The encode handler\<close>

text \<open>
  The \<^verbatim>\<open>try\<close> block of \<^verbatim>\<open>handleEncode\<close> ends in one of three ways: it runs to its
  end, a statement throws, or an awaited promise never settles. What can throw is an awaited
  call (\<^verbatim>\<open>fetchFile\<close>, \<^verbatim>\<open>writeFile\<close>, \<^verbatim>\<open>exec\<close>, \<^verbatim>\<open>readFile\<close>) and the explicit
  \<^verbatim>\<open>throw\<close> of line 408; the state setters and the browser calls of lines 424 to 439
  are taken to return.
\<close>

datatype completion = Returned | Threw | Stuck

definition prepend :: "event list \<Rightarrow> event list \<times> completion \<Rightarrow> event list \<times> completion" where
  "prepend evs r = (evs @ fst r, snd r)"

text \<open>Lines 404 and 405: the resolution and the bitrate of the job.\<close>

definition jobResolution :: "component \<Rightarrow> Preset \<Rightarrow> number option" where
  "jobResolution s preset =
     (if name preset = NAME_CUSTOM then Some (customResolution s) else resolution preset)"

definition jobBitrate :: "component \<Rightarrow> Preset \<Rightarrow> string" where
  "jobBitrate s preset =
     (if name preset = NAME_CUSTOM then Number_toString (customBitrate s) @ ''M''
      else if truthy (bitrate preset) then the (bitrate preset) else ''1M'')"

text \<open>Lines 411 to 421: the arguments of \<^verbatim>\<open>ffmpeg.exec\<close>.\<close>

definition execArgs :: "string \<Rightarrow> string \<Rightarrow> string list" where
  "execArgs filter_expr br =
     [''-i'', ''input.mp4'', ''-filter:v'', filter_expr, ''-b:v'', br, ''-c:a'', ''copy'',
      ''output.mp4'']"

text \<open>Lines 423 to 439: after \<^verbatim>\<open>ffmpeg.exec\<close> has resolved.\<close>

definition encodeExtract :: "env \<Rightarrow> File \<Rightarrow> event list \<times> completion" where
  "encodeExtract e f =
     prepend [CallReadFile ''output.mp4'']
       (case readFile e ''output.mp4'' of
          Pending \<Rightarrow> ([], Stuck)
        | Rejected \<Rightarrow> ([], Threw)
        | Resolved content \<Rightarrow>
            (let u = createObjectURL e content ''video/mp4'';
                 fileNameWithoutExt = takeWhile (\<lambda>c. c \<noteq> CHR ''.'') (fileName f)
             in ([CreateObjectURL content ''video/mp4'' u,
                  SetEncodedVideoUrl (Some u),
                  Download u (''encoded_'' @ fileNameWithoutExt @ ''.mp4''),
                  Notify successNotification], Returned)))"

text \<open>Lines 404 to 421: after \<^verbatim>\<open>ffmpeg.writeFile\<close> has resolved.\<close>

definition encodeExecute :: "env \<Rightarrow> component \<Rightarrow> Preset \<Rightarrow> File \<Rightarrow> event list \<times> completion" where
  "encodeExecute e s preset f =
     (case jobResolution s preset of
        None \<Rightarrow> ([], Threw)
      | Some r \<Rightarrow>
          if r = 0 then ([], Threw)
          else
            (let args = execArgs (getScalingFilter (scalingStrategy s) (backgroundColor s) r)
                          (jobBitrate s preset)
             in prepend (CallExec args # map Listener (fst (exec e args)))
                  (case snd (exec e args) of
                     Pending \<Rightarrow> ([], Stuck)
                   | Rejected \<Rightarrow> ([], Threw)
                   | Resolved code \<Rightarrow> encodeExtract e f)))"

text \<open>Lines 399 to 402: the start of the \<^verbatim>\<open>try\<close> block.\<close>

definition encodeTry :: "env \<Rightarrow> component \<Rightarrow> Preset \<Rightarrow> File \<Rightarrow> event list \<times> completion" where
  "encodeTry e s preset f =
     prepend [SetIsEncoding True, ClearLogs, CallFetchFile f]
       (case fetchFile e f of
          Pending \<Rightarrow> ([], Stuck)
        | Rejected \<Rightarrow> ([], Threw)
        | Resolved input \<Rightarrow>
            prepend [CallWriteFile ''input.mp4'' input]
              (case writeFile e ''input.mp4'' input of
                 Pending \<Rightarrow> ([], Stuck)
               | Rejected \<Rightarrow> ([], Threw)
               | Resolved w \<Rightarrow> encodeExecute e s preset f))"

text \<open>
  \<^verbatim>\<open>try ... catch ... finally\<close>: the second component tells whether the handler
  finished.
\<close>

definition encodeJob :: "env \<Rightarrow> component \<Rightarrow> Preset \<Rightarrow> File \<Rightarrow> event list \<times> bool" where
  "encodeJob e s preset f =
     (case snd (encodeTry e s preset f) of
        Returned \<Rightarrow> (fst (encodeTry e s preset f) @ [SetIsEncoding False], True)
      | Threw \<Rightarrow>
          (fst (encodeTry e s preset f)
             @ [ConsoleError, Notify failureNotification, SetIsEncoding False], True)
      | Stuck \<Rightarrow> (fst (encodeTry e s preset f), False))"

text \<open>
  \<^verbatim>\<open>handleEncode\<close>, lines 376 to 449. The handler is a closure over the state \<open>s\<close> of
  the render it was created in: every value it reads is the value in \<open>s\<close>. The result is
  the list of its effects in order, and whether the handler ran to its end.
\<close>

definition releasePrevious :: "component \<Rightarrow> event list" where
  "releasePrevious s = (if truthy (encodedVideoUrl s) then [SetEncodedVideoUrl None] else [])"

definition handleEncode :: "env \<Rightarrow> component \<Rightarrow> event list \<times> bool" where
  "handleEncode e s =
     (case file s of
        None \<Rightarrow> ([], True)
      | Some f \<Rightarrow>
          if \<not> loaded s then ([], True)
          else
            (case find (\<lambda>p. name p = selectedPreset s) PRESETS of
               None \<Rightarrow> (releasePrevious s, True)
             | Some preset \<Rightarrow>
                 (let error = (if name preset = NAME_CUSTOM
                               then validateCustomSettings (customResolution s) (customBitrate s)
                               else None)
                  in if name preset = NAME_CUSTOM \<and> truthy error
                     then (releasePrevious s @ [Notify (validationNotification (the error))], True)
                     else (releasePrevious s @ fst (encodeJob e s preset f),
                           snd (encodeJob e s preset f)))))"

section \<open>The trigger\<close>

text \<open>
  The button of line 627 is the only place that uses \<^verbatim>\<open>handleEncode\<close>: its
  \<^verbatim>\<open>onClick\<close> is the handler, its \<^verbatim>\<open>loading\<close> is \<open>isEncoding\<close>, and it is
  \<^verbatim>\<open>disabled\<close> without a file or before the engine is loaded. A button of the component
  library that is disabled or loading does not run its handler when it is clicked, so a
  trigger of the encode is a click on this button.
\<close>

record Button =
  loading :: bool
  disabled :: bool

definition encodeButton :: "component \<Rightarrow> Button" where
  "encodeButton s = \<lparr>loading = isEncoding s, disabled = (file s = None \<or> \<not> loaded s)\<rparr>"

definition triggerEncode :: "env \<Rightarrow> component \<Rightarrow> event list \<times> bool" where
  "triggerEncode e s =
     (if disabled (encodeButton s) \<or> loading (encodeButton s) then ([], True)
      else handleEncode e s)"

section \<open>How the effects change the page\<close>

text \<open>
  One event applied to the page. A state setter stores its value. The effect of lines 349
  to 356 is part of \<open>SetEncodedVideoUrl\<close>: when the stored URL changes, the clean-up of the
  render that held the old URL revokes it, if it was truthy. (The framework runs the clean-up
  when it commits the render that follows the change of state; the model runs it together
  with the setter, before any later effect of the handler.) The listeners registered in
  \<^verbatim>\<open>useFFmpeg\<close> (lines 63 to 69) append a log line and store a progress value.
  \<^verbatim>\<open>URL.createObjectURL\<close> adds the new URL to the live ones.
\<close>

fun apply_event :: "component \<Rightarrow> event \<Rightarrow> component" where
  "apply_event s (SetEncodedVideoUrl v) =
     (if encodedVideoUrl s = v then s
      else s\<lparr>encodedVideoUrl := v,
              liveUrls := (if truthy (encodedVideoUrl s)
                           then liveUrls s - {the (encodedVideoUrl s)} else liveUrls s)\<rparr>)"
| "apply_event s (SetIsEncoding b) = s\<lparr>isEncoding := b\<rparr>"
| "apply_event s ClearLogs = s\<lparr>logs := []\<rparr>"
| "apply_event s (Listener (LogEvent m)) = s\<lparr>logs := logs s @ [m]\<rparr>"
| "apply_event s (Listener (ProgressEvent p)) = s\<lparr>progress := p\<rparr>"
| "apply_event s (CreateObjectURL content mime u) = s\<lparr>liveUrls := insert u (liveUrls s)\<rparr>"
| "apply_event s (Notify n) = s"
| "apply_event s ConsoleError = s"
| "apply_event s (CallFetchFile f) = s"
| "apply_event s (CallWriteFile n b) = s"
| "apply_event s (CallExec args) = s"
| "apply_event s (CallReadFile n) = s"
| "apply_event s (Download u n) = s"

definition run :: "component \<Rightarrow> event list \<Rightarrow> component" where
  "run s evs = foldl apply_event s evs"

section \<open>Notions used in the statements\<close>

text \<open>A background colour of the form \<^verbatim>\<open>#RRGGBB\<close>.\<close>

definition isHexColor :: "string \<Rightarrow> bool" where
  "isHexColor c =
     (length c = 7 \<and> hd c = CHR ''#''
      \<and> list_all (\<lambda>x. x \<in> set ''0123456789abcdefABCDEF'') (tl c))"

text \<open>The events that contact the engine.\<close>

definition engineCall :: "event \<Rightarrow> bool" where
  "engineCall ev =
     (case ev of CallFetchFile f \<Rightarrow> True | CallWriteFile n b \<Rightarrow> True
      | CallExec args \<Rightarrow> True | CallReadFile n \<Rightarrow> True | _ \<Rightarrow> False)"

text \<open>The click on the download link.\<close>

definition isDownload :: "event \<Rightarrow> bool" where
  "isDownload ev = (case ev of Download u n \<Rightarrow> True | _ \<Rightarrow> False)"

text \<open>An engine whose promises all settle.\<close>

definition responsive :: "env \<Rightarrow> bool" where
  "responsive e =
     ((\<forall>f. fetchFile e f \<noteq> Pending) \<and> (\<forall>n b. writeFile e n b \<noteq> Pending)
      \<and> (\<forall>args. snd (exec e args) \<noteq> Pending) \<and> (\<forall>n. readFile e n \<noteq> Pending))"

text \<open>
  A concrete page for the examples: a selected file \<^verbatim>\<open>clip.mov\<close>, the first preset,
  the Cover strategy, an engine that is loaded and answers every call, reporting progress
  one half and then one during \<^verbatim>\<open>exec\<close>.
\<close>

definition demo_file :: File where
  "demo_file = \<lparr>fileName = ''clip.mov'', fileBytes = [1, 2, 3]\<rparr>"

definition demo_env :: env where
  "demo_env =
     \<lparr>fetchFile = (\<lambda>f. Resolved (fileBytes f)),
      writeFile = (\<lambda>n b. Resolved ()),
      exec = (\<lambda>args. ([LogEvent ''frame=1'', ProgressEvent (1 / 2), ProgressEvent 1], Resolved 0)),
      readFile = (\<lambda>n. Resolved [7, 8, 9]),
      blobId = (\<lambda>b m. ''id1'')\<rparr>"

definition demo_state :: component where
  "demo_state =
     \<lparr>selectedPreset = NAME_SD, customResolution = DEFAULT_RESOLUTION,
      customBitrate = DEFAULT_BITRATE, file = Some demo_file, isEncoding = False,
      scalingStrategy = Cover, backgroundColor = ''#000000'', encodedVideoUrl = None,
      loaded = True, progress = 0, logs = [], liveUrls = {}\<rparr>"

definition demo_exec_args :: "string list" where
  "demo_exec_args =
     [''-i'', ''input.mp4'', ''-filter:v'',
      ''crop=min(iw'' @ [CHR 0x5C] @ '',ih):min(iw'' @ [CHR 0x5C] @ '',ih),scale=480:480'',
      ''-b:v'', ''1M'', ''-c:a'', ''copy'', ''output.mp4'']"

text \<open>The third entry of \<open>PRESETS\<close>.\<close>

definition custom_preset :: Preset where
  "custom_preset = \<lparr>name = NAME_CUSTOM, resolution = None, bitrate = None\<rparr>"

text \<open>The same page with the custom preset selected.\<close>

definition demo_custom :: component where
  "demo_custom = demo_state\<lparr>selectedPreset := NAME_CUSTOM\<rparr>"

text \<open>An engine whose \<^verbatim>\<open>exec\<close> rejects.\<close>

definition failing_env :: env where
  "failing_env = demo_env\<lparr>exec := (\<lambda>args. ([LogEvent ''Conversion failed!''], Rejected))\<rparr>"

text \<open>The page a first, successful job leaves behind, and a browser that names the next blob \<^verbatim>\<open>id2\<close>.\<close>

definition after_first_job :: component where
  "after_first_job = run demo_state (fst (handleEncode demo_env demo_state))"

definition second_env :: env where
  "second_env = demo_env\<lparr>blobId := (\<lambda>b m. ''id2'')\<rparr>"

text \<open>
  The object URLs of results: the only live one, if any, is the one stored in
  \<open>encodedVideoUrl\<close> (and no stored URL is the empty string, which the browser never
  hands out).
\<close>

definition urlInvariant :: "component \<Rightarrow> bool" where
  "urlInvariant s =
     (encodedVideoUrl s \<noteq> Some [] \<and>
      liveUrls s \<subseteq> (case encodedVideoUrl s of None \<Rightarrow> {} | Some u \<Rightarrow> {u}))"

text \<open>
  The events that touch the stored URL or the live URLs, the part of the page they touch,
  and their action on that part alone (\<open>apply_event\<close> seen through \<open>urlView\<close>).
\<close>

definition isUrlEvent :: "event \<Rightarrow> bool" where
  "isUrlEvent ev =
     (case ev of SetEncodedVideoUrl v \<Rightarrow> True | CreateObjectURL c m u \<Rightarrow> True | _ \<Rightarrow> False)"

definition urlView :: "component \<Rightarrow> url option \<times> url set" where
  "urlView s = (encodedVideoUrl s, liveUrls s)"

fun url_step :: "url option \<times> url set \<Rightarrow> event \<Rightarrow> url option \<times> url set" where
  "url_step (v, L) (SetEncodedVideoUrl w) =
     (if v = w then (v, L) else (w, if truthy v then L - {the v} else L))"
| "url_step (v, L) (CreateObjectURL c m u) = (v, insert u L)"
| "url_step (v, L) ev = (v, L)"

section \<open>The filter builder: properties\<close>

lemma Number_toString_480: "Number_toString 480 = ''480''"
  by code_simp

lemma Number_toString_720: "Number_toString 720 = ''720''"
  by code_simp

text \<open>The characters of a printed number are digits, the sign and the point.\<close>

lemma digit_char_range: "digit_char d \<in> set ''0123456789''"
proof -
  have "d mod 10 = 0 \<or> d mod 10 = 1 \<or> d mod 10 = 2 \<or> d mod 10 = 3 \<or> d mod 10 = 4
        \<or> d mod 10 = 5 \<or> d mod 10 = 6 \<or> d mod 10 = 7 \<or> d mod 10 = 8 \<or> d mod 10 = 9"
    by arith
  then show ?thesis
    unfolding digit_char_def by (elim disjE) simp_all
qed

lemma nat_digits_range: "set (nat_digits n) \<subseteq> set ''0123456789''"
proof (induction n rule: nat_digits.induct)
  case (1 n)
  show ?case
  proof (cases "n < 10")
    case True
    then show ?thesis
      using digit_char_range [of n] by (subst nat_digits.simps) simp
  next
    case False
    with 1 digit_char_range [of "n mod 10"] show ?thesis
      by (subst nat_digits.simps) simp
  qed
qed

lemma frac_digits_range: "set (frac_digits k r) \<subseteq> set ''0123456789''"
proof (induction k arbitrary: r)
  case 0
  show ?case by simp
next
  case (Suc k)
  from Suc [of "r * 10 - of_int \<lfloor>r * 10\<rfloor>"] digit_char_range [of "nat \<lfloor>r * 10\<rfloor>"]
  show ?case by simp
qed

lemma digits_no_d:
  "CHR ''d'' \<notin> set (nat_digits n)" "CHR ''d'' \<notin> set (frac_digits k r)"
  using nat_digits_range [of n] frac_digits_range [of k r] by auto

lemma Number_toString_no_d: "CHR ''d'' \<notin> set (Number_toString x)"
  by (simp add: Number_toString_def Let_def digits_no_d)

lemma cover_no_d: "CHR ''d'' \<notin> set (getScalingFilter Cover bg r)"
  by (simp add: getScalingFilter_def backslash_def Number_toString_no_d)

lemma cover_no_pad: "\<not> sublist ''pad'' (getScalingFilter Cover bg r)"
proof
  assume "sublist ''pad'' (getScalingFilter Cover bg r)"
  then have "set ''pad'' \<subseteq> set (getScalingFilter Cover bg r)"
    by (rule set_mono_sublist)
  with cover_no_d [of bg r] show False by simp
qed

text \<open>
  C2. Under the Cover strategy, for every resolution \<open>r\<close>, the filter expression is exactly
  the crop to the square of side \<open>min(iw, ih)\<close> followed by the scale to \<open>r\<close> by \<open>r\<close>;
  it does not depend on the background colour, and no pad filter occurs in it.
\<close>

theorem cover_crops_then_scales:
  "getScalingFilter Cover bg r =
     ''crop=min(iw'' @ backslash @ '',ih):min(iw'' @ backslash @ '',ih)'' @ '','' @
     ''scale='' @ Number_toString r @ '':'' @ Number_toString r
   \<and> getScalingFilter Cover bg r = getScalingFilter Cover bg' r
   \<and> \<not> sublist ''pad'' (getScalingFilter Cover bg r)"
proof (intro conjI)
  show "getScalingFilter Cover bg r =
     ''crop=min(iw'' @ backslash @ '',ih):min(iw'' @ backslash @ '',ih)'' @ '','' @
     ''scale='' @ Number_toString r @ '':'' @ Number_toString r"
    by (simp add: getScalingFilter_def)
  show "getScalingFilter Cover bg r = getScalingFilter Cover bg' r"
    by (simp add: getScalingFilter_def)
  show "\<not> sublist ''pad'' (getScalingFilter Cover bg r)"
    by (rule cover_no_pad)
qed

lemma cover_480:
  "getScalingFilter Cover ''#000000'' 480 =
     ''crop=min(iw'' @ [CHR 0x5C] @ '',ih):min(iw'' @ [CHR 0x5C] @ '',ih),scale=480:480''"
  by (simp add: getScalingFilter_def Number_toString_480 backslash_def)

text \<open>
  C3. Under the Contain strategy, for every resolution \<open>r\<close> and every background colour
  of the form \<^verbatim>\<open>#RRGGBB\<close>, the filter expression is exactly the scale to fit \<open>r\<close> by \<open>r\<close>
  with \<^verbatim>\<open>force_original_aspect_ratio=decrease\<close>, followed by the pad to \<open>r\<close> by \<open>r\<close>
  at offsets \<open>-1:-1\<close> (centred), whose colour is the background colour with its leading
  \<^verbatim>\<open>#\<close> replaced by \<^verbatim>\<open>0x\<close>.
\<close>

theorem contain_scales_then_pads:
  assumes "isHexColor bg"
  shows "getScalingFilter Contain bg r =
     ''scale='' @ Number_toString r @ '':'' @ Number_toString r
       @ '':force_original_aspect_ratio=decrease'' @ '','' @
     ''pad='' @ Number_toString r @ '':'' @ Number_toString r
       @ '':-1:-1:color='' @ ''0x'' @ tl bg"
proof -
  from assms obtain cs where c: "bg = CHR ''#'' # cs"
    by (cases bg) (auto simp: isHexColor_def)
  show ?thesis
    unfolding c by (simp add: getScalingFilter_def)
qed

theorem contain_scales_then_pads_witness:
  "isHexColor ''#12aBcd'' \<and>
   getScalingFilter Contain ''#12aBcd'' 480 =
     ''scale=480:480:force_original_aspect_ratio=decrease,pad=480:480:-1:-1:color=0x12aBcd''"
proof -
  have h: "isHexColor ''#12aBcd''"
    by (simp add: isHexColor_def)
  show ?thesis
    using h contain_scales_then_pads [OF h, of 480] by (simp add: Number_toString_480)
qed

text \<open>
  C10. The filter builder is defined on all three strategies. Every strategy other than
  Cover gets the scale-then-pad expression, so Fill gets the expression of Contain.
\<close>

theorem fill_is_contain:
  "(\<forall>strategy. strategy \<noteq> Cover \<longrightarrow>
      getScalingFilter strategy bg r =
        ''scale='' @ Number_toString r @ '':'' @ Number_toString r
          @ '':force_original_aspect_ratio=decrease'' @ '','' @
        ''pad='' @ Number_toString r @ '':'' @ Number_toString r
          @ '':-1:-1:color='' @ replace bg ''#'' ''0x'')
   \<and> getScalingFilter Fill bg r = getScalingFilter Contain bg r"
  by (simp add: getScalingFilter_def)

theorem fill_is_contain_witness:
  "Fill \<noteq> Cover \<and>
   getScalingFilter Fill ''#ffffff'' 720 =
     ''scale=720:720:force_original_aspect_ratio=decrease,pad=720:720:-1:-1:color=0xffffff''"
proof -
  have "Fill \<noteq> Cover"
    by simp
  with fill_is_contain [of "''#ffffff''" 720] show ?thesis
    by (simp add: Number_toString_720)
qed

section \<open>The time estimator: properties\<close>

text \<open>Rounding to a double: the exponent, the error, and the integers it leaves alone.\<close>

lemma bit_length_pos: "0 < n \<Longrightarrow> bit_length n = Suc (bit_length (n div 2))"
  by (subst bit_length.simps) simp

lemma bit_length_bounds:
  "0 < n \<Longrightarrow> 2 ^ (bit_length n - 1) \<le> n \<and> n < 2 ^ bit_length n"
proof (induction n rule: bit_length.induct)
  case (1 n)
  show ?case
  proof (cases "n = 1")
    case True
    have "bit_length (1 div 2) = 0"
      by (subst bit_length.simps) simp
    with True show ?thesis
      by (simp add: bit_length_pos)
  next
    case False
    with "1.prems" have h: "0 < n div 2" and n: "\<not> n \<le> 0"
      by auto
    from "1.IH" [OF n h]
    have lo: "2 ^ (bit_length (n div 2) - 1) \<le> n div 2"
      and hi: "n div 2 < 2 ^ bit_length (n div 2)"
      by auto
    obtain m where m: "bit_length (n div 2) = Suc m"
      using bit_length_pos [OF h] by blast
    have "2 * (n div 2) \<le> n" "n \<le> 2 * (n div 2) + 1"
      by auto
    with lo hi show ?thesis
      by (simp add: bit_length_pos [OF "1.prems"] m)
  qed
qed

lemma ilog2_le:
  assumes "0 < q"
  shows "2 powi (ilog2 q) \<le> q"
proof -
  obtain a b where ab: "quotient_of q = (a, b)"
    by (cases "quotient_of q")
  have b: "0 < b"
    using quotient_of_denom_pos [OF ab] .
  have q: "q = of_int a / of_int b"
    using quotient_of_div [OF ab] .
  have a: "0 < a"
    using assms b by (simp add: q zero_less_divide_iff)
  let ?d = "int (bit_length a) - int (bit_length b)"
  show ?thesis
  proof (cases "2 powi ?d \<le> q")
    case True
    then show ?thesis
      by (simp add: ilog2_def ab)
  next
    case False
    obtain m where m: "bit_length a = Suc m"
      using bit_length_pos [OF a] by blast
    have lo: "2 ^ m \<le> a"
      using bit_length_bounds [OF a] by (simp add: m)
    have hi: "b \<le> 2 ^ bit_length b"
      using bit_length_bounds [OF b] by simp
    have d: "?d - 1 = int m - int (bit_length b)"
      by (simp add: m)
    have "(2::rat) powi (?d - 1) = 2 ^ m / 2 ^ bit_length b"
      unfolding d by (simp add: power_int_diff)
    also have "\<dots> \<le> of_int a / of_int b"
    proof (rule frac_le)
      show "(2::rat) ^ m \<le> of_int a"
        using lo by (metis of_int_le_iff of_int_numeral of_int_power)
      show "(of_int b :: rat) \<le> 2 ^ bit_length b"
        using hi by (metis of_int_le_iff of_int_numeral of_int_power)
    qed (use a b in simp_all)
    also have "\<dots> = q"
      by (simp add: q)
    finally have "2 powi (?d - 1) \<le> q" .
    moreover have "ilog2 q = ?d - 1"
      using False by (simp add: ilog2_def ab)
    ultimately show ?thesis
      by simp
  qed
qed

lemma round_half_even_error: "\<bar>of_int (round_half_even x) - x\<bar> \<le> 1 / 2"
proof -
  have "of_int \<lfloor>x\<rfloor> \<le> x" "x < of_int \<lfloor>x\<rfloor> + 1"
    by linarith+
  then show ?thesis
    by (auto simp: round_half_even_def Let_def abs_le_iff)
qed

lemma round_half_even_int [simp]: "round_half_even (of_int n) = n"
  by (simp add: round_half_even_def)

lemma to_double_error:
  assumes "q \<noteq> 0"
  shows "\<bar>to_double q - q\<bar> \<le> 2 powi (max (ilog2 \<bar>q\<bar>) (- 1022) - 52) / 2"
proof -
  let ?u = "(2::rat) powi (max (ilog2 \<bar>q\<bar>) (- 1022) - 52)"
  have u: "0 < ?u"
    by simp
  have "to_double q - q = (of_int (round_half_even (q / ?u)) - q / ?u) * ?u"
    using assms u by (simp add: to_double_def Let_def field_simps)
  then have "\<bar>to_double q - q\<bar> = \<bar>of_int (round_half_even (q / ?u)) - q / ?u\<bar> * ?u"
    using u by (simp add: abs_mult)
  also have "\<dots> \<le> 1 / 2 * ?u"
    using round_half_even_error [of "q / ?u"] u by (intro mult_right_mono) simp_all
  finally show ?thesis
    by simp
qed

lemma to_double_int:
  assumes "\<bar>n\<bar> < 2 ^ 53"
  shows "to_double (of_int n) = of_int n"
proof (cases "n = 0")
  case True
  then show ?thesis
    by (simp add: to_double_def)
next
  case False
  let ?q = "of_int n :: rat"
  let ?e = "ilog2 \<bar>?q\<bar>"
  have pos: "0 < \<bar>?q\<bar>"
    using False by simp
  have "2 powi ?e \<le> \<bar>?q\<bar>"
    by (rule ilog2_le [OF pos])
  also have "\<bar>?q\<bar> < 2 powi 53"
    using assms by (metis of_int_abs of_int_less_iff of_int_numeral of_int_power power_int_numeral)
  finally have "?e < 53"
    by (metis linorder_not_less one_le_numeral power_int_increasing leD)
  then have k: "max ?e (- 1022) - 52 \<le> 0"
    by simp
  define j where "j = nat (- (max ?e (- 1022) - 52))"
  have kj: "max ?e (- 1022) - 52 = - int j"
    using k by (simp add: j_def)
  have u: "(2::rat) powi (max ?e (- 1022) - 52) = 1 / 2 ^ j"
    unfolding kj by (simp add: power_int_minus_divide)
  have "?q / (1 / 2 ^ j) = of_int (n * 2 ^ j)"
    by simp
  then have "round_half_even (?q / (1 / 2 ^ j)) = n * 2 ^ j"
    by (simp only: round_half_even_int)
  then show ?thesis
    using False by (simp add: to_double_def Let_def u)
qed

lemma float_div_1000:
  assumes "\<bar>n\<bar> < 2 ^ 53"
  shows "\<lfloor>float_div (of_int n) 1000\<rfloor> = n div 1000"
proof -
  have ops: "to_double (of_int n) = of_int n" "to_double 1000 = 1000"
    using to_double_int [OF assms] to_double_int [of 1000] by simp_all
  show ?thesis
  proof (cases "n mod 1000 = 0")
    case True
    then obtain N where N: "n = 1000 * N"
      by auto
    with assms have "\<bar>N\<bar> < 2 ^ 53"
      by simp
    from to_double_int [OF this] have "\<lfloor>to_double (of_int N)\<rfloor> = N"
      by simp
    moreover have "float_div (of_int n) 1000 = to_double (of_int n / 1000)"
      by (simp add: float_div_def ops)
    moreover have "(of_int n :: rat) / 1000 = of_int N"
      by (simp add: N)
    ultimately show ?thesis
      by (simp add: N)
  next
    case False
    let ?q = "of_int n / 1000 :: rat"
    let ?N = "n div 1000"
    have n: "n = 1000 * ?N + n mod 1000"
      by simp
    have r: "1 \<le> n mod 1000" "n mod 1000 \<le> 999"
      using False pos_mod_sign [of 1000 n] pos_mod_bound [of 1000 n] by linarith+
    have "(of_int n :: rat) = of_int (1000 * ?N + n mod 1000)"
      by simp
    then have q: "?q = of_int ?N + of_int (n mod 1000) / 1000"
      by (simp only: of_int_add of_int_mult) (simp add: add_divide_distrib)
    have lo: "of_int ?N + 1 / 1000 \<le> ?q" and hi: "?q \<le> of_int ?N + 999 / 1000"
      using r unfolding q by (simp_all add: divide_simps)
    have nz: "?q \<noteq> 0"
      using False by auto
    have qb: "\<bar>?q\<bar> < 2 ^ 53 / 1000"
      using assms by (simp add: divide_simps)
    have pos: "0 < \<bar>?q\<bar>"
      using nz by simp
    let ?e = "ilog2 \<bar>?q\<bar>"
    have e: "2 powi ?e \<le> \<bar>?q\<bar>"
      by (rule ilog2_le [OF pos])
    have "2 powi (max ?e (- 1022) - 52) / 2 < (1 / 1000 :: rat)"
    proof (cases "- 1022 \<le> ?e")
      case True
      then have "(2::rat) powi (max ?e (- 1022) - 52) = 2 powi ?e / 2 ^ 52"
        by (simp add: max_def power_int_diff)
      also have "\<dots> \<le> \<bar>?q\<bar> / 2 ^ 52"
        using e by (simp add: divide_right_mono)
      finally show ?thesis
        using qb by (simp add: divide_simps)
    next
      case False
      then have "(2::rat) powi (max ?e (- 1022) - 52) = 2 powi (- 1074)"
        by (simp add: max_def)
      also have "\<dots> \<le> 2 powi (- 11)"
        by (rule power_int_increasing) simp_all
      also have "\<dots> = 1 / 2048"
        by (simp add: power_int_minus_divide)
      finally show ?thesis
        by simp
    qed
    with to_double_error [OF nz] have "\<bar>to_double ?q - ?q\<bar> < 1 / 1000"
      by linarith
    then have "to_double ?q - ?q < 1 / 1000" "?q - to_double ?q < 1 / 1000"
      by linarith+
    with lo hi have "of_int ?N \<le> to_double ?q" "to_double ?q < of_int ?N + 1"
      by linarith+
    then have "\<lfloor>to_double ?q\<rfloor> = ?N"
      by (simp add: floor_unique)
    then show ?thesis
      by (simp add: float_div_def ops)
  qed
qed

lemma float_sub_int:
  assumes "\<bar>a\<bar> < 2 ^ 53" "\<bar>b\<bar> < 2 ^ 53" "\<bar>a - b\<bar> < 2 ^ 53"
  shows "\<lfloor>float_sub (of_int a) (of_int b)\<rfloor> = a - b"
  using to_double_int [OF assms(1)] to_double_int [OF assms(2)] to_double_int [OF assms(3)]
  by (simp add: float_sub_def)

text \<open>
  C8. When the effect of the time estimator runs while encoding with a progress \<open>p > 0\<close>:
  the start time is the present time if none was captured before, and is kept otherwise;
  the elapsed time is the floor of (now - start) / 1000, which for differences of time
  stamps is the integer quotient; the estimated total is the floor of elapsed / p, the
  quotient being the one of doubles. While encoding with \<open>p \<le> 0\<close> nothing changes (no
  start time is captured). The remaining time shown is the maximum of estimated - elapsed
  and 1. When not encoding, the effect clears the start time and sets elapsed and estimated
  to 0.
\<close>

theorem time_estimator:
  "(isEnc \<and> p > 0 \<longrightarrow>
      startTimeRef (encodingTimeEffect isEnc p now t)
        = Some (case startTimeRef t of None \<Rightarrow> now | Some s \<Rightarrow> s)
    \<and> elapsedTime (encodingTimeEffect isEnc p now t)
        = \<lfloor>float_div (of_int (now - (case startTimeRef t of None \<Rightarrow> now | Some s \<Rightarrow> s))) 1000\<rfloor>
    \<and> (\<bar>now - (case startTimeRef t of None \<Rightarrow> now | Some s \<Rightarrow> s)\<bar> < 2 ^ 53 \<longrightarrow>
         elapsedTime (encodingTimeEffect isEnc p now t)
           = (now - (case startTimeRef t of None \<Rightarrow> now | Some s \<Rightarrow> s)) div 1000)
    \<and> estimatedTime (encodingTimeEffect isEnc p now t)
        = \<lfloor>float_div (of_int (elapsedTime (encodingTimeEffect isEnc p now t))) p\<rfloor>)
   \<and> (isEnc \<and> p \<le> 0 \<longrightarrow> encodingTimeEffect isEnc p now t = t)
   \<and> remainingTime t
       = max \<lfloor>float_sub (of_int (estimatedTime t)) (of_int (elapsedTime t))\<rfloor> 1
   \<and> (\<bar>estimatedTime t\<bar> < 2 ^ 53 \<and> \<bar>elapsedTime t\<bar> < 2 ^ 53
        \<and> \<bar>estimatedTime t - elapsedTime t\<bar> < 2 ^ 53 \<longrightarrow>
        remainingTime t = max (estimatedTime t - elapsedTime t) 1)
   \<and> (\<not> isEnc \<longrightarrow>
        encodingTimeEffect isEnc p now t
          = \<lparr>elapsedTime = 0, estimatedTime = 0, startTimeRef = None\<rparr>)"
proof -
  let ?start = "case startTimeRef t of None \<Rightarrow> now | Some s \<Rightarrow> s"
  have el: "elapsedTime (encodingTimeEffect isEnc p now t)
              = \<lfloor>float_div (of_int (now - ?start)) 1000\<rfloor>" if "isEnc" "p > 0"
    using that by (simp add: encodingTimeEffect_def Let_def)
  have el_exact: "elapsedTime (encodingTimeEffect isEnc p now t) = (now - ?start) div 1000"
    if "isEnc" "p > 0" "\<bar>now - ?start\<bar> < 2 ^ 53"
    using el [OF that(1,2)] float_div_1000 [OF that(3)] by simp
  have rest: "isEnc \<and> p > 0 \<longrightarrow>
      startTimeRef (encodingTimeEffect isEnc p now t) = Some ?start
    \<and> estimatedTime (encodingTimeEffect isEnc p now t)
        = \<lfloor>float_div (of_int (elapsedTime (encodingTimeEffect isEnc p now t))) p\<rfloor>"
    by (simp add: encodingTimeEffect_def Let_def)
  have idle: "isEnc \<and> p \<le> 0 \<longrightarrow> encodingTimeEffect isEnc p now t = t"
    by (simp add: encodingTimeEffect_def)
  have reset: "\<not> isEnc \<longrightarrow>
        encodingTimeEffect isEnc p now t
          = \<lparr>elapsedTime = 0, estimatedTime = 0, startTimeRef = None\<rparr>"
    by (simp add: encodingTimeEffect_def)
  have rem: "remainingTime t = max (estimatedTime t - elapsedTime t) 1"
    if "\<bar>estimatedTime t\<bar> < 2 ^ 53" "\<bar>elapsedTime t\<bar> < 2 ^ 53"
       "\<bar>estimatedTime t - elapsedTime t\<bar> < 2 ^ 53"
    using float_sub_int [OF that] by (simp add: remainingTime_def)
  from el el_exact rest idle reset rem show ?thesis
    by (simp add: remainingTime_def)
qed

text \<open>
  A run of the estimator: no progress yet; the first progress at time 1000; progress 0.1
  after 3 seconds and 0.07 after 7 seconds, where the quotients of doubles give 30 and 99;
  progress 0.25 after 10 seconds; the end of the job.
\<close>

theorem time_estimator_witness:
  "encodingTimeEffect True 0 500 initialEncodingTime = initialEncodingTime
   \<and> encodingTimeEffect True (to_double (1 / 10)) 1000 initialEncodingTime
     = \<lparr>elapsedTime = 0, estimatedTime = 0, startTimeRef = Some 1000\<rparr>
   \<and> encodingTimeEffect True (to_double (1 / 10)) 4000
        \<lparr>elapsedTime = 0, estimatedTime = 0, startTimeRef = Some 1000\<rparr>
       = \<lparr>elapsedTime = 3, estimatedTime = 30, startTimeRef = Some 1000\<rparr>
   \<and> encodingTimeEffect True (to_double (7 / 100)) 8000
        \<lparr>elapsedTime = 3, estimatedTime = 30, startTimeRef = Some 1000\<rparr>
       = \<lparr>elapsedTime = 7, estimatedTime = 99, startTimeRef = Some 1000\<rparr>
   \<and> encodingTimeEffect True (1 / 4) 11000
        \<lparr>elapsedTime = 7, estimatedTime = 99, startTimeRef = Some 1000\<rparr>
       = \<lparr>elapsedTime = 10, estimatedTime = 40, startTimeRef = Some 1000\<rparr>
   \<and> remainingTime \<lparr>elapsedTime = 10, estimatedTime = 40, startTimeRef = Some 1000\<rparr> = 30
   \<and> encodingTimeEffect False (1 / 4) 12000
        \<lparr>elapsedTime = 10, estimatedTime = 40, startTimeRef = Some 1000\<rparr>
       = \<lparr>elapsedTime = 0, estimatedTime = 0, startTimeRef = None\<rparr>"
proof -
  have pos: "0 < to_double (1 / 10)" "0 < to_double (7 / 100)"
    by code_simp+
  have q: "\<lfloor>float_div 0 (to_double (1 / 10))\<rfloor> = 0"
    "\<lfloor>float_div 3 (to_double (1 / 10))\<rfloor> = 30"
    "\<lfloor>float_div 7 (to_double (7 / 100))\<rfloor> = 99"
    "\<lfloor>float_div 10 (1 / 4)\<rfloor> = 40"
    by code_simp+
  have z: "encodingTimeEffect True 0 500 initialEncodingTime = initialEncodingTime"
    using time_estimator [of True 0 500 initialEncodingTime]
    by simp
  have a: "encodingTimeEffect True (to_double (1 / 10)) 1000 initialEncodingTime
             = \<lparr>elapsedTime = 0, estimatedTime = 0, startTimeRef = Some 1000\<rparr>"
    using time_estimator [of True "to_double (1 / 10)" 1000 initialEncodingTime] pos q
    by (cases "encodingTimeEffect True (to_double (1 / 10)) 1000 initialEncodingTime")
       (simp add: initialEncodingTime_def)
  have b: "encodingTimeEffect True (to_double (1 / 10)) 4000
             \<lparr>elapsedTime = 0, estimatedTime = 0, startTimeRef = Some 1000\<rparr>
             = \<lparr>elapsedTime = 3, estimatedTime = 30, startTimeRef = Some 1000\<rparr>"
    using time_estimator [of True "to_double (1 / 10)" 4000
            "\<lparr>elapsedTime = 0, estimatedTime = 0, startTimeRef = Some 1000\<rparr>"] pos q
    by (cases "encodingTimeEffect True (to_double (1 / 10)) 4000
                 \<lparr>elapsedTime = 0, estimatedTime = 0, startTimeRef = Some 1000\<rparr>") simp
  have c: "encodingTimeEffect True (to_double (7 / 100)) 8000
             \<lparr>elapsedTime = 3, estimatedTime = 30, startTimeRef = Some 1000\<rparr>
             = \<lparr>elapsedTime = 7, estimatedTime = 99, startTimeRef = Some 1000\<rparr>"
    using time_estimator [of True "to_double (7 / 100)" 8000
            "\<lparr>elapsedTime = 3, estimatedTime = 30, startTimeRef = Some 1000\<rparr>"] pos q
    by (cases "encodingTimeEffect True (to_double (7 / 100)) 8000
                 \<lparr>elapsedTime = 3, estimatedTime = 30, startTimeRef = Some 1000\<rparr>") simp
  have d: "encodingTimeEffect True (1 / 4) 11000
             \<lparr>elapsedTime = 7, estimatedTime = 99, startTimeRef = Some 1000\<rparr>
             = \<lparr>elapsedTime = 10, estimatedTime = 40, startTimeRef = Some 1000\<rparr>"
    using time_estimator [of True "1 / 4" 11000
            "\<lparr>elapsedTime = 7, estimatedTime = 99, startTimeRef = Some 1000\<rparr>"] q
    by (cases "encodingTimeEffect True (1 / 4) 11000
                 \<lparr>elapsedTime = 7, estimatedTime = 99, startTimeRef = Some 1000\<rparr>") simp
  have r: "remainingTime \<lparr>elapsedTime = 10, estimatedTime = 40, startTimeRef = Some 1000\<rparr> = 30"
    using time_estimator [of False 0 0
            "\<lparr>elapsedTime = 10, estimatedTime = 40, startTimeRef = Some 1000\<rparr>"]
    by simp
  have f: "encodingTimeEffect False (1 / 4) 12000
             \<lparr>elapsedTime = 10, estimatedTime = 40, startTimeRef = Some 1000\<rparr>
             = \<lparr>elapsedTime = 0, estimatedTime = 0, startTimeRef = None\<rparr>"
    using time_estimator [of False "1 / 4" 12000
            "\<lparr>elapsedTime = 10, estimatedTime = 40, startTimeRef = Some 1000\<rparr>"]
    by simp
  from z a b c d r f show ?thesis
    by simp
qed

section \<open>The encode handler: properties\<close>

lemma encodeExecute_flag:
  "encodeExecute e (s\<lparr>isEncoding := b\<rparr>) preset f = encodeExecute e s preset f"
  by (simp add: encodeExecute_def jobResolution_def jobBitrate_def split: option.splits)

lemma encodeTry_flag:
  "encodeTry e (s\<lparr>isEncoding := b\<rparr>) preset f = encodeTry e s preset f"
  by (simp add: encodeTry_def encodeExecute_flag split: promise.splits)

lemma encodeJob_flag:
  "encodeJob e (s\<lparr>isEncoding := b\<rparr>) preset f = encodeJob e s preset f"
  by (simp add: encodeJob_def encodeTry_flag split: completion.splits)

lemma releasePrevious_flag: "releasePrevious (s\<lparr>isEncoding := b\<rparr>) = releasePrevious s"
  by (simp add: releasePrevious_def)

text \<open>
  The handler itself does not read the in-flight flag: the guard against a second job is
  the button, not a test in \<^verbatim>\<open>handleEncode\<close>.
\<close>

lemma handleEncode_reads_no_flag: "handleEncode e (s\<lparr>isEncoding := b\<rparr>) = handleEncode e s"
  by (simp add: handleEncode_def releasePrevious_flag encodeJob_flag Let_def
           split: option.splits)

lemmas stage_defs = encodeTry_def encodeExecute_def encodeExtract_def prepend_def Let_def

lemma notifications_differ [simp]:
  "successNotification \<noteq> failureNotification" "failureNotification \<noteq> successNotification"
  by (simp_all add: successNotification_def failureNotification_def)

lemma encodeTry_exec:
  "CallExec args \<in> set (fst (encodeTry e s preset f)) \<Longrightarrow>
     \<exists>r. jobResolution s preset = Some r \<and> r \<noteq> 0 \<and>
         args = execArgs (getScalingFilter (scalingStrategy s) (backgroundColor s) r) (jobBitrate s preset)"
  by (auto simp: stage_defs split: promise.splits option.splits if_splits)

lemma encodeTry_slots:
  "(CallWriteFile n b \<in> set (fst (encodeTry e s preset f)) \<longrightarrow> n = ''input.mp4'')
   \<and> (CallReadFile n \<in> set (fst (encodeTry e s preset f)) \<longrightarrow> n = ''output.mp4'')
   \<and> (CreateObjectURL c m u \<in> set (fst (encodeTry e s preset f)) \<longrightarrow> m = ''video/mp4'')"
  by (auto simp: stage_defs split: promise.splits option.splits if_splits)

lemma encodeTry_success:
  "(Notify successNotification \<in> set (fst (encodeTry e s preset f))) = (snd (encodeTry e s preset f) = Returned)"
  by (auto simp: stage_defs split: promise.splits option.splits if_splits)

lemma encodeTry_no_failure:
  "Notify failureNotification \<notin> set (fst (encodeTry e s preset f))"
  by (auto simp: stage_defs split: promise.splits option.splits if_splits)

lemma encodeTry_responsive:
  "responsive e \<Longrightarrow> snd (encodeTry e s preset f) \<noteq> Stuck"
  by (auto simp: stage_defs responsive_def split: promise.splits option.splits if_splits)

lemma encodeTry_reaches_exec:
  "fetchFile e f = Resolved b \<Longrightarrow> writeFile e ''input.mp4'' b = Resolved w \<Longrightarrow>
   jobResolution s preset = Some r \<Longrightarrow> r \<noteq> 0 \<Longrightarrow>
   CallExec (execArgs (getScalingFilter (scalingStrategy s) (backgroundColor s) r) (jobBitrate s preset))
     \<in> set (fst (encodeTry e s preset f))"
  by (auto simp: stage_defs split: promise.splits option.splits if_splits)


lemma releasePrevious_set: "set (releasePrevious s) \<subseteq> {SetEncodedVideoUrl None}"
  by (auto simp: releasePrevious_def)

lemma handleEncode_cases:
  "handleEncode e s = ([], True)
   \<or> handleEncode e s = (releasePrevious s, True)
   \<or> handleEncode e s = (releasePrevious s @ [Notify (validationNotification resolution_message)], True)
   \<or> handleEncode e s = (releasePrevious s @ [Notify (validationNotification bitrate_message)], True)
   \<or> (\<exists>preset f. file s = Some f \<and> loaded s
         \<and> find (\<lambda>p. name p = selectedPreset s) PRESETS = Some preset
         \<and> handleEncode e s = (releasePrevious s @ fst (encodeJob e s preset f), snd (encodeJob e s preset f)))"
  by (auto simp: handleEncode_def Let_def validateCustomSettings_def truthy_def split: option.splits)

lemma encodeJob_cases:
  "(snd (encodeTry e s preset f) = Returned
      \<and> encodeJob e s preset f = (fst (encodeTry e s preset f) @ [SetIsEncoding False], True))
   \<or> (snd (encodeTry e s preset f) = Threw
      \<and> encodeJob e s preset f
          = (fst (encodeTry e s preset f) @ [ConsoleError, Notify failureNotification, SetIsEncoding False], True))
   \<or> (snd (encodeTry e s preset f) = Stuck
      \<and> encodeJob e s preset f = (fst (encodeTry e s preset f), False))"
  by (cases "snd (encodeTry e s preset f)") (simp_all add: encodeJob_def)

lemma encodeJob_exec:
  "CallExec args \<in> set (fst (encodeJob e s preset f)) \<Longrightarrow>
     CallExec args \<in> set (fst (encodeTry e s preset f))"
  using encodeJob_cases [of e s preset f] by auto

lemma handleEncode_event_origin:
  assumes "x \<in> set (fst (handleEncode e s))"
  shows "x = SetEncodedVideoUrl None
         \<or> x = Notify (validationNotification resolution_message)
         \<or> x = Notify (validationNotification bitrate_message)
         \<or> (\<exists>preset f. file s = Some f \<and> loaded s
               \<and> find (\<lambda>p. name p = selectedPreset s) PRESETS = Some preset
               \<and> x \<in> set (fst (encodeJob e s preset f)))"
  using handleEncode_cases [of e s] assms releasePrevious_set [of s] by auto

lemma encodeJob_event_origin:
  assumes "x \<in> set (fst (encodeJob e s preset f))"
  shows "x \<in> set (fst (encodeTry e s preset f))
         \<or> x = ConsoleError \<or> x = Notify failureNotification \<or> x = SetIsEncoding False"
  using encodeJob_cases [of e s preset f] assms by auto

lemma isEncoding_apply:
  "isEncoding (apply_event s ev) = (case ev of SetIsEncoding b \<Rightarrow> b | _ \<Rightarrow> isEncoding s)"
  by (cases "(s, ev)" rule: apply_event.cases) simp_all

lemma run_flag:
  "SetIsEncoding False \<notin> set pre \<Longrightarrow> isEncoding s \<or> SetIsEncoding True \<in> set pre \<Longrightarrow>
     isEncoding (run s pre)"
proof (induction pre arbitrary: s)
  case Nil
  then show ?case
    by (simp add: run_def)
next
  case (Cons ev pre)
  have step: "run s (ev # pre) = run (apply_event s ev) pre"
    by (simp add: run_def)
  from Cons.prems have "isEncoding (apply_event s ev) \<or> SetIsEncoding True \<in> set pre"
    by (cases ev) (auto simp: isEncoding_apply)
  with Cons.IH [of "apply_event s ev"] Cons.prems(1) show ?case
    by (simp add: step)
qed

lemma split_before:
  "pre @ ev # post = A @ B \<Longrightarrow> ev \<notin> set A \<Longrightarrow> \<exists>pre'. pre = A @ pre' \<and> pre' @ ev # post = B"
  by (auto simp: append_eq_append_conv2 Cons_eq_append_conv)

lemma split_after:
  "pre @ ev # post = B @ C \<Longrightarrow> ev \<notin> set C \<Longrightarrow> \<exists>post'. B = pre @ ev # post'"
  by (auto simp: append_eq_append_conv2 append_eq_Cons_conv Cons_eq_append_conv)

lemma not_in_proper_prefix:
  "xs = pre @ post \<Longrightarrow> post \<noteq> [] \<Longrightarrow> x \<notin> set (butlast xs) \<Longrightarrow> x \<notin> set pre"
  by (simp add: butlast_append)

lemma encodeTry_shape:
  "\<exists>R. fst (encodeTry e s preset f) = SetIsEncoding True # R \<and> SetIsEncoding False \<notin> set R"
  by (auto simp: stage_defs split: promise.splits option.splits if_splits)

lemma handleEncode_shape:
  "((\<forall>ev \<in> set (fst (handleEncode e s)). \<not> engineCall ev \<and> \<not> isDownload ev)
      \<and> SetIsEncoding True \<notin> set (fst (handleEncode e s)))
   \<or> (\<exists>R tail. fst (handleEncode e s) = releasePrevious s @ (SetIsEncoding True # R) @ tail
         \<and> SetIsEncoding False \<notin> set R
         \<and> (tail = [] \<or> tail = [SetIsEncoding False]
              \<or> tail = [ConsoleError, Notify failureNotification, SetIsEncoding False]))"
proof -
  have rel: "set (releasePrevious s) \<subseteq> {SetEncodedVideoUrl None}"
    by (rule releasePrevious_set)
  from handleEncode_cases [of e s] show ?thesis
  proof (elim disjE exE conjE)
    fix preset f
    assume eq: "handleEncode e s
      = (releasePrevious s @ fst (encodeJob e s preset f), snd (encodeJob e s preset f))"
    obtain R where R: "fst (encodeTry e s preset f) = SetIsEncoding True # R"
      "SetIsEncoding False \<notin> set R"
      using encodeTry_shape [of e s preset f] by blast
    from encodeJob_cases [of e s preset f] R(1)
    have "\<exists>tail. fst (handleEncode e s) = releasePrevious s @ (SetIsEncoding True # R) @ tail
         \<and> (tail = [] \<or> tail = [SetIsEncoding False]
              \<or> tail = [ConsoleError, Notify failureNotification, SetIsEncoding False])"
      by (auto simp: eq)
    with R(2) show ?thesis
      by blast
  qed (use rel in \<open>auto simp: engineCall_def isDownload_def\<close>)
qed

text \<open>
  C1. A trigger made while the in-flight flag is set has no effect at all, while a trigger
  on an idle page with a file and a loaded engine runs the handler. During a run
  started by a trigger, every call to the engine and every download happens on a page whose
  flag is set; and from the effect that sets the flag until the last effect of the run, the
  flag is set. On such a page any further trigger is without effect, so no second job
  starts while one is in flight.
\<close>

theorem single_job_in_flight:
  "(isEncoding s \<longrightarrow> triggerEncode e s = ([], True))
   \<and> (\<not> isEncoding s \<and> file s \<noteq> None \<and> loaded s \<longrightarrow>
        triggerEncode e s = handleEncode e s)
   \<and> (\<forall>pre ev post. fst (triggerEncode e s) = pre @ ev # post \<and> (engineCall ev \<or> isDownload ev)
         \<longrightarrow> isEncoding (run s pre) \<and> (\<forall>e'. triggerEncode e' (run s pre) = ([], True)))
   \<and> (\<forall>pre post. fst (triggerEncode e s) = pre @ post \<and> SetIsEncoding True \<in> set pre
           \<and> post \<noteq> []
         \<longrightarrow> isEncoding (run s pre) \<and> (\<forall>e'. triggerEncode e' (run s pre) = ([], True)))"
proof -
  have gate: "triggerEncode e' p = ([], True)" if "isEncoding p" for e' p
    using that by (simp add: triggerEncode_def encodeButton_def)
  have idle: "triggerEncode e s = handleEncode e s"
    if "\<not> isEncoding s" "file s \<noteq> None" "loaded s"
    using that by (auto simp: triggerEncode_def encodeButton_def)
  have rel: "set (releasePrevious s) \<subseteq> {SetEncodedVideoUrl None}"
    by (rule releasePrevious_set)
  have work: "isEncoding (run s pre)"
    if tr: "fst (triggerEncode e s) = pre @ ev # post" and ev: "engineCall ev \<or> isDownload ev"
    for pre ev post
  proof -
    from tr have open_gate: "fst (triggerEncode e s) = fst (handleEncode e s)"
      by (auto simp: triggerEncode_def split: if_splits)
    with tr have h: "fst (handleEncode e s) = pre @ ev # post"
      by simp
    from handleEncode_shape [of e s] h ev obtain R tail where
      shape: "pre @ ev # post = releasePrevious s @ (SetIsEncoding True # R) @ tail"
      and R: "SetIsEncoding False \<notin> set R"
      and tail: "tail = [] \<or> tail = [SetIsEncoding False]
              \<or> tail = [ConsoleError, Notify failureNotification, SetIsEncoding False]"
      by (metis in_set_conv_decomp)
    have "ev \<notin> set (releasePrevious s)"
      using rel ev by (auto simp: engineCall_def isDownload_def)
    from split_before [OF shape this] obtain pre' where
      pre: "pre = releasePrevious s @ pre'"
      and rest: "pre' @ ev # post = (SetIsEncoding True # R) @ tail"
      by blast
    have "ev \<notin> set tail"
      using tail ev by (auto simp: engineCall_def isDownload_def)
    from split_after [OF rest this] obtain post' where
      "SetIsEncoding True # R = pre' @ ev # post'"
      by blast
    moreover have "ev \<noteq> SetIsEncoding True"
      using ev by (auto simp: engineCall_def isDownload_def)
    ultimately obtain pre'' where "pre' = SetIsEncoding True # pre''" "set pre'' \<subseteq> set R"
      by (cases pre') auto
    with pre R rel have "SetIsEncoding False \<notin> set pre" "SetIsEncoding True \<in> set pre"
      by auto
    then show ?thesis
      by (simp add: run_flag)
  qed
  have flight: "isEncoding (run s pre)"
    if tr: "fst (triggerEncode e s) = pre @ post" and started: "SetIsEncoding True \<in> set pre"
      and post: "post \<noteq> []"
    for pre post
  proof -
    from tr post have "fst (triggerEncode e s) = fst (handleEncode e s)"
      by (auto simp: triggerEncode_def split: if_splits)
    with tr have h: "fst (handleEncode e s) = pre @ post"
      by simp
    from handleEncode_shape [of e s] h started obtain R tail where
      shape: "fst (handleEncode e s) = releasePrevious s @ (SetIsEncoding True # R) @ tail"
      and R: "SetIsEncoding False \<notin> set R"
      and tail: "tail = [] \<or> tail = [SetIsEncoding False]
              \<or> tail = [ConsoleError, Notify failureNotification, SetIsEncoding False]"
      by auto
    have "SetIsEncoding False \<notin> set (butlast (fst (handleEncode e s)))"
      using tail R rel by (auto simp: shape butlast_append dest: in_set_butlastD)
    from not_in_proper_prefix [OF h post this] started show ?thesis
      by (simp add: run_flag)
  qed
  from gate idle work flight show ?thesis
    by blast
qed

text \<open>
  The example: a click on a busy page does nothing; a click on the idle page runs the
  handler; in that run the call of
  \<^verbatim>\<open>exec\<close> is the fifth effect, the page before it has the flag set, and a click there
  does nothing either.
\<close>

theorem single_job_in_flight_witness:
  "isEncoding (demo_state\<lparr>isEncoding := True\<rparr>)
   \<and> triggerEncode demo_env (demo_state\<lparr>isEncoding := True\<rparr>) = ([], True)
   \<and> \<not> isEncoding demo_state \<and> file demo_state \<noteq> None \<and> loaded demo_state
   \<and> triggerEncode demo_env demo_state = handleEncode demo_env demo_state
   \<and> fst (triggerEncode demo_env demo_state)
       = take 4 (fst (triggerEncode demo_env demo_state)) @ CallExec demo_exec_args
           # drop 5 (fst (triggerEncode demo_env demo_state))
   \<and> engineCall (CallExec demo_exec_args)
   \<and> SetIsEncoding True \<in> set (take 4 (fst (triggerEncode demo_env demo_state)))
   \<and> isEncoding (run demo_state (take 4 (fst (triggerEncode demo_env demo_state))))
   \<and> triggerEncode failing_env (run demo_state (take 4 (fst (triggerEncode demo_env demo_state))))
       = ([], True)"
proof -
  have busy: "isEncoding (demo_state\<lparr>isEncoding := True\<rparr>)"
    by simp
  have split: "fst (triggerEncode demo_env demo_state)
       = take 4 (fst (triggerEncode demo_env demo_state)) @ CallExec demo_exec_args
           # drop 5 (fst (triggerEncode demo_env demo_state))"
    by code_simp
  have call: "engineCall (CallExec demo_exec_args)"
    by (simp add: engineCall_def)
  have started: "SetIsEncoding True \<in> set (take 4 (fst (triggerEncode demo_env demo_state)))"
    by code_simp
  from single_job_in_flight [where e = demo_env and s = "demo_state\<lparr>isEncoding := True\<rparr>"]
    busy
  have a: "triggerEncode demo_env (demo_state\<lparr>isEncoding := True\<rparr>) = ([], True)"
    by blast
  from single_job_in_flight [where e = demo_env and s = demo_state] split call
  have b: "isEncoding (run demo_state (take 4 (fst (triggerEncode demo_env demo_state))))
       \<and> triggerEncode failing_env
            (run demo_state (take 4 (fst (triggerEncode demo_env demo_state)))) = ([], True)"
    by blast
  have open_gate: "\<not> isEncoding demo_state" "file demo_state \<noteq> None" "loaded demo_state"
    by (simp_all add: demo_state_def)
  with single_job_in_flight [where e = demo_env and s = demo_state]
  have c: "triggerEncode demo_env demo_state = handleEncode demo_env demo_state"
    by blast
  from busy a open_gate c split call started b show ?thesis
    by blast
qed

text \<open>
  C5, as the code has it. Every call of \<^verbatim>\<open>ffmpeg.exec\<close> by the handler has exactly the
  nine arguments \<^verbatim>\<open>-i input.mp4 -filter:v F -b:v B -c:a copy output.mp4\<close>, where \<open>F\<close> is
  the filter expression built for the resolution of the job and \<open>B\<close> its bitrate; the
  file is staged under \<^verbatim>\<open>input.mp4\<close>, the result is read from \<^verbatim>\<open>output.mp4\<close> and wrapped
  as \<^verbatim>\<open>video/mp4\<close>. No argument names a video codec or an encoder preset.
\<close>

theorem exec_command_is_fixed:
  "(\<forall>args. CallExec args \<in> set (fst (handleEncode e s)) \<longrightarrow>
      (\<exists>preset r. find (\<lambda>p. name p = selectedPreset s) PRESETS = Some preset
         \<and> jobResolution s preset = Some r
         \<and> args = [''-i'', ''input.mp4'', ''-filter:v'',
                   getScalingFilter (scalingStrategy s) (backgroundColor s) r,
                   ''-b:v'', jobBitrate s preset, ''-c:a'', ''copy'', ''output.mp4'']))
   \<and> (\<forall>n b. CallWriteFile n b \<in> set (fst (handleEncode e s)) \<longrightarrow> n = ''input.mp4'')
   \<and> (\<forall>n. CallReadFile n \<in> set (fst (handleEncode e s)) \<longrightarrow> n = ''output.mp4'')
   \<and> (\<forall>c m u. CreateObjectURL c m u \<in> set (fst (handleEncode e s)) \<longrightarrow> m = ''video/mp4'')"
proof (intro conjI allI impI)
  fix args
  assume "CallExec args \<in> set (fst (handleEncode e s))"
  from handleEncode_event_origin [OF this] obtain preset f where
    p: "find (\<lambda>p. name p = selectedPreset s) PRESETS = Some preset"
    and j: "CallExec args \<in> set (fst (encodeJob e s preset f))"
    by (auto simp: validationNotification_def)
  from encodeJob_event_origin [OF j] have "CallExec args \<in> set (fst (encodeTry e s preset f))"
    by auto
  from encodeTry_exec [OF this] p
  show "\<exists>preset r. find (\<lambda>p. name p = selectedPreset s) PRESETS = Some preset
       \<and> jobResolution s preset = Some r
       \<and> args = [''-i'', ''input.mp4'', ''-filter:v'',
                 getScalingFilter (scalingStrategy s) (backgroundColor s) r,
                 ''-b:v'', jobBitrate s preset, ''-c:a'', ''copy'', ''output.mp4'']"
    by (auto simp: execArgs_def)
next
  fix n b
  assume "CallWriteFile n b \<in> set (fst (handleEncode e s))"
  from handleEncode_event_origin [OF this] obtain preset f where
    j: "CallWriteFile n b \<in> set (fst (encodeJob e s preset f))"
    by auto
  from encodeJob_event_origin [OF j]
    encodeTry_slots [where n = n and b = b and e = e and s = s and preset = preset and f = f]
  show "n = ''input.mp4''"
    by auto
next
  fix n
  assume "CallReadFile n \<in> set (fst (handleEncode e s))"
  from handleEncode_event_origin [OF this] obtain preset f where
    j: "CallReadFile n \<in> set (fst (encodeJob e s preset f))"
    by auto
  from encodeJob_event_origin [OF j]
    encodeTry_slots [where n = n and e = e and s = s and preset = preset and f = f]
  show "n = ''output.mp4''"
    by auto
next
  fix c m u
  assume "CreateObjectURL c m u \<in> set (fst (handleEncode e s))"
  from handleEncode_event_origin [OF this] obtain preset f where
    j: "CreateObjectURL c m u \<in> set (fst (encodeJob e s preset f))"
    by auto
  from encodeJob_event_origin [OF j]
    encodeTry_slots [where c = c and m = m and u = u and e = e and s = s
                       and preset = preset and f = f]
  show "m = ''video/mp4''"
    by auto
qed

text \<open>The successful job of the example: its four calls, and the shape of its command.\<close>

theorem exec_command_is_fixed_witness:
  "CallExec demo_exec_args \<in> set (fst (handleEncode demo_env demo_state))
   \<and> CallWriteFile ''input.mp4'' [1, 2, 3] \<in> set (fst (handleEncode demo_env demo_state))
   \<and> CallReadFile ''output.mp4'' \<in> set (fst (handleEncode demo_env demo_state))
   \<and> CreateObjectURL [7, 8, 9] ''video/mp4'' ''blob:id1''
       \<in> set (fst (handleEncode demo_env demo_state))
   \<and> length demo_exec_args = 9
   \<and> take 3 demo_exec_args = [''-i'', ''input.mp4'', ''-filter:v'']
   \<and> drop 6 demo_exec_args = [''-c:a'', ''copy'', ''output.mp4'']"
proof -
  have h: "CallExec demo_exec_args \<in> set (fst (handleEncode demo_env demo_state))"
    "CallWriteFile ''input.mp4'' [1, 2, 3] \<in> set (fst (handleEncode demo_env demo_state))"
    "CallReadFile ''output.mp4'' \<in> set (fst (handleEncode demo_env demo_state))"
    "CreateObjectURL [7, 8, 9] ''video/mp4'' ''blob:id1''
       \<in> set (fst (handleEncode demo_env demo_state))"
    by code_simp+
  with exec_command_is_fixed [of demo_env demo_state]
  obtain x y where eq: "demo_exec_args
      = [''-i'', ''input.mp4'', ''-filter:v'', x, ''-b:v'', y, ''-c:a'', ''copy'', ''output.mp4'']"
    by blast
  have "length demo_exec_args = 9"
    "take 3 demo_exec_args = [''-i'', ''input.mp4'', ''-filter:v'']"
    "drop 6 demo_exec_args = [''-c:a'', ''copy'', ''output.mp4'']"
    unfolding eq by simp_all
  with h show ?thesis
    by blast
qed

text \<open>
  The command of a job with the first preset: no \<^verbatim>\<open>-c:v\<close>, no \<^verbatim>\<open>libx264\<close>, no
  \<^verbatim>\<open>-preset\<close> and no \<^verbatim>\<open>medium\<close> among its arguments.
\<close>

theorem exec_command_counterexample:
  "fst (handleEncode demo_env demo_state) ! 4 = CallExec demo_exec_args
   \<and> ''-c:v'' \<notin> set demo_exec_args \<and> ''libx264'' \<notin> set demo_exec_args
   \<and> ''-preset'' \<notin> set demo_exec_args \<and> ''medium'' \<notin> set demo_exec_args"
  by code_simp


lemma find_custom: "find (\<lambda>p. name p = NAME_CUSTOM) PRESETS = Some custom_preset"
  by (simp add: PRESETS_def NAME_SD_def NAME_HD_def NAME_CUSTOM_def custom_preset_def)

lemma resolution_message_text:
  "resolution_message =
     [CHR 0xE5, CHR 0x88, CHR 0x86, CHR 0xE8, CHR 0xBE, CHR 0xA8, CHR 0xE7, CHR 0x8E, CHR 0x87,
      CHR 0xE5, CHR 0xBF, CHR 0x85, CHR 0xE9, CHR 0xA1, CHR 0xBB, CHR 0xE5, CHR 0x9C, CHR 0xA8]
     @ ''100'' @ [CHR 0xE5, CHR 0x88, CHR 0xB0] @ ''1920''
     @ [CHR 0xE4, CHR 0xB9, CHR 0x8B, CHR 0xE9, CHR 0x97, CHR 0xB4]"
  by code_simp

lemma bitrate_message_text:
  "bitrate_message =
     [CHR 0xE6, CHR 0xAF, CHR 0x94, CHR 0xE7, CHR 0x89, CHR 0xB9, CHR 0xE7, CHR 0x8E, CHR 0x87,
      CHR 0xE5, CHR 0xBF, CHR 0x85, CHR 0xE9, CHR 0xA1, CHR 0xBB, CHR 0xE5, CHR 0x9C, CHR 0xA8]
     @ ''0.5'' @ [CHR 0xE5, CHR 0x88, CHR 0xB0] @ ''10'' @ '' Mbps''
     @ [CHR 0xE4, CHR 0xB9, CHR 0x8B, CHR 0xE9, CHR 0x97, CHR 0xB4]"
  by code_simp

lemma messages_truthy: "truthy (Some resolution_message)" "truthy (Some bitrate_message)"
  by (simp_all add: truthy_def resolution_message_text bitrate_message_text)

lemma releasePrevious_no_engine: "\<not> list_ex engineCall (releasePrevious s)"
  by (simp add: releasePrevious_def engineCall_def)

lemma handleEncode_custom:
  assumes "file s = Some f" "loaded s" "selectedPreset s = NAME_CUSTOM"
  shows "handleEncode e s =
     (case validateCustomSettings (customResolution s) (customBitrate s) of
        Some msg \<Rightarrow> (releasePrevious s @ [Notify (validationNotification msg)], True)
      | None \<Rightarrow> (releasePrevious s @ fst (encodeJob e s custom_preset f),
                 snd (encodeJob e s custom_preset f)))"
  using assms messages_truthy
  by (auto simp: handleEncode_def find_custom Let_def validateCustomSettings_def truthy_def
                 custom_preset_def)

lemma validate_resolution:
  "r < 100 \<or> r > 1920 \<Longrightarrow> validateCustomSettings r b = Some resolution_message"
  by (simp add: validateCustomSettings_def MIN_RESOLUTION_def MAX_RESOLUTION_def)

lemma validate_bitrate:
  "100 \<le> r \<Longrightarrow> r \<le> 1920 \<Longrightarrow> b < 1 / 2 \<or> b > 10 \<Longrightarrow>
     validateCustomSettings r b = Some bitrate_message"
  by (auto simp: validateCustomSettings_def MIN_RESOLUTION_def MAX_RESOLUTION_def
                 MIN_BITRATE_def MAX_BITRATE_def)

lemma validate_ok:
  "100 \<le> r \<Longrightarrow> r \<le> 1920 \<Longrightarrow> 1 / 2 \<le> b \<Longrightarrow> b \<le> 10 \<Longrightarrow> validateCustomSettings r b = None"
  by (auto simp: validateCustomSettings_def MIN_RESOLUTION_def MAX_RESOLUTION_def
                 MIN_BITRATE_def MAX_BITRATE_def)

lemma encodeJob_reaches_exec:
  assumes "fetchFile e f = Resolved b" "writeFile e ''input.mp4'' b = Resolved w"
    "jobResolution s preset = Some r" "r \<noteq> 0"
  shows "CallExec (execArgs (getScalingFilter (scalingStrategy s) (backgroundColor s) r)
                     (jobBitrate s preset)) \<in> set (fst (encodeJob e s preset f))"
  using encodeTry_reaches_exec [OF assms] encodeJob_cases [of e s preset f] by auto

lemma encodeTry_notify:
  "Notify n \<in> set (fst (encodeTry e s preset f)) \<Longrightarrow> n = successNotification"
  by (auto simp: stage_defs split: promise.splits option.splits if_splits)

lemma validation_not_success: "validationNotification m \<noteq> successNotification"
  by (simp add: validationNotification_def successNotification_def TITLE_ERROR_def
                TITLE_SUCCESS_def)

lemma validation_not_failure:
  "validationNotification resolution_message \<noteq> failureNotification"
  "validationNotification bitrate_message \<noteq> failureNotification"
  by (simp_all add: validationNotification_def failureNotification_def MESSAGE_FAILED_def
                    resolution_message_text bitrate_message_text)

lemma encodeJob_no_validation:
  "Notify (validationNotification resolution_message) \<notin> set (fst (encodeJob e s preset f))"
  "Notify (validationNotification bitrate_message) \<notin> set (fst (encodeJob e s preset f))"
  using encodeJob_event_origin [of "Notify (validationNotification resolution_message)" e s preset f]
    encodeJob_event_origin [of "Notify (validationNotification bitrate_message)" e s preset f]
    encodeTry_notify [of _ e s preset f] validation_not_success validation_not_failure
  by auto

text \<open>
  C4. With a file selected, the engine loaded and the custom preset selected: a custom
  resolution outside 100 to 1920 makes the handler show the notification that names the
  resolution and its range, and stop; otherwise a custom bitrate outside 0.5 to 10 makes it
  show the notification that names the bitrate and its range, and stop; in both cases no
  call reaches the engine. With both values in range no such notification is shown, every
  \<^verbatim>\<open>exec\<close> of the job carries the custom resolution in its filter and the bitrate
  printed as the number followed by \<^verbatim>\<open>M\<close>, and that \<^verbatim>\<open>exec\<close> is issued as soon as
  the file has been staged.
\<close>

theorem custom_settings_validated:
  assumes "file s = Some f" "loaded s" "selectedPreset s = NAME_CUSTOM"
  shows
    "(customResolution s < 100 \<or> customResolution s > 1920 \<longrightarrow>
        handleEncode e s
          = (releasePrevious s @ [Notify (validationNotification resolution_message)], True)
        \<and> \<not> list_ex engineCall (fst (handleEncode e s)))
     \<and> (100 \<le> customResolution s \<and> customResolution s \<le> 1920
          \<and> (customBitrate s < 1 / 2 \<or> customBitrate s > 10) \<longrightarrow>
        handleEncode e s
          = (releasePrevious s @ [Notify (validationNotification bitrate_message)], True)
        \<and> \<not> list_ex engineCall (fst (handleEncode e s)))
     \<and> (100 \<le> customResolution s \<and> customResolution s \<le> 1920
          \<and> 1 / 2 \<le> customBitrate s \<and> customBitrate s \<le> 10 \<longrightarrow>
        Notify (validationNotification resolution_message) \<notin> set (fst (handleEncode e s))
        \<and> Notify (validationNotification bitrate_message) \<notin> set (fst (handleEncode e s))
        \<and> (\<forall>args. CallExec args \<in> set (fst (handleEncode e s)) \<longrightarrow>
              args = execArgs (getScalingFilter (scalingStrategy s) (backgroundColor s)
                                 (customResolution s))
                       (Number_toString (customBitrate s) @ ''M''))
        \<and> (\<forall>b w. fetchFile e f = Resolved b \<and> writeFile e ''input.mp4'' b = Resolved w \<longrightarrow>
              CallExec (execArgs (getScalingFilter (scalingStrategy s) (backgroundColor s)
                                   (customResolution s))
                         (Number_toString (customBitrate s) @ ''M''))
                \<in> set (fst (handleEncode e s))))
     \<and> resolution_message =
         [CHR 0xE5, CHR 0x88, CHR 0x86, CHR 0xE8, CHR 0xBE, CHR 0xA8, CHR 0xE7, CHR 0x8E, CHR 0x87,
          CHR 0xE5, CHR 0xBF, CHR 0x85, CHR 0xE9, CHR 0xA1, CHR 0xBB, CHR 0xE5, CHR 0x9C, CHR 0xA8]
         @ ''100'' @ [CHR 0xE5, CHR 0x88, CHR 0xB0] @ ''1920''
         @ [CHR 0xE4, CHR 0xB9, CHR 0x8B, CHR 0xE9, CHR 0x97, CHR 0xB4]
     \<and> bitrate_message =
         [CHR 0xE6, CHR 0xAF, CHR 0x94, CHR 0xE7, CHR 0x89, CHR 0xB9, CHR 0xE7, CHR 0x8E, CHR 0x87,
          CHR 0xE5, CHR 0xBF, CHR 0x85, CHR 0xE9, CHR 0xA1, CHR 0xBB, CHR 0xE5, CHR 0x9C, CHR 0xA8]
         @ ''0.5'' @ [CHR 0xE5, CHR 0x88, CHR 0xB0] @ ''10'' @ '' Mbps''
         @ [CHR 0xE4, CHR 0xB9, CHR 0x8B, CHR 0xE9, CHR 0x97, CHR 0xB4]"
proof -
  note h = handleEncode_custom [OF assms, of e]
  have jr: "jobResolution s custom_preset = Some (customResolution s)"
    and jb: "jobBitrate s custom_preset = Number_toString (customBitrate s) @ ''M''"
    by (simp_all add: jobResolution_def jobBitrate_def custom_preset_def)
  have bad_res: "handleEncode e s
          = (releasePrevious s @ [Notify (validationNotification resolution_message)], True)
        \<and> \<not> list_ex engineCall (fst (handleEncode e s))"
    if "customResolution s < 100 \<or> customResolution s > 1920"
    using h validate_resolution [OF that, of "customBitrate s"] releasePrevious_no_engine [of s]
    by (simp add: engineCall_def)
  have bad_br: "handleEncode e s
          = (releasePrevious s @ [Notify (validationNotification bitrate_message)], True)
        \<and> \<not> list_ex engineCall (fst (handleEncode e s))"
    if "100 \<le> customResolution s" "customResolution s \<le> 1920"
       "customBitrate s < 1 / 2 \<or> customBitrate s > 10"
    using h validate_bitrate [OF that] releasePrevious_no_engine [of s]
    by (simp add: engineCall_def)
  have good: "Notify (validationNotification resolution_message) \<notin> set (fst (handleEncode e s))
        \<and> Notify (validationNotification bitrate_message) \<notin> set (fst (handleEncode e s))
        \<and> (\<forall>args. CallExec args \<in> set (fst (handleEncode e s)) \<longrightarrow>
              args = execArgs (getScalingFilter (scalingStrategy s) (backgroundColor s)
                                 (customResolution s))
                       (Number_toString (customBitrate s) @ ''M''))
        \<and> (\<forall>b w. fetchFile e f = Resolved b \<and> writeFile e ''input.mp4'' b = Resolved w \<longrightarrow>
              CallExec (execArgs (getScalingFilter (scalingStrategy s) (backgroundColor s)
                                   (customResolution s))
                         (Number_toString (customBitrate s) @ ''M''))
                \<in> set (fst (handleEncode e s)))"
    if ok: "100 \<le> customResolution s" "customResolution s \<le> 1920"
       "1 / 2 \<le> customBitrate s" "customBitrate s \<le> 10"
  proof -
    have eq: "handleEncode e s = (releasePrevious s @ fst (encodeJob e s custom_preset f),
                 snd (encodeJob e s custom_preset f))"
      using h validate_ok [OF ok] by simp
    have nz: "customResolution s \<noteq> 0"
      using ok by auto
    have rel: "set (releasePrevious s) \<subseteq> {SetEncodedVideoUrl None}"
      by (rule releasePrevious_set)
    have a: "Notify (validationNotification resolution_message) \<notin> set (fst (handleEncode e s))"
      and b: "Notify (validationNotification bitrate_message) \<notin> set (fst (handleEncode e s))"
      using rel encodeJob_no_validation [of e s custom_preset f] by (auto simp: eq)
    have c: "args = execArgs (getScalingFilter (scalingStrategy s) (backgroundColor s)
                                 (customResolution s))
                       (Number_toString (customBitrate s) @ ''M'')"
      if "CallExec args \<in> set (fst (handleEncode e s))" for args
    proof -
      from that rel have "CallExec args \<in> set (fst (encodeJob e s custom_preset f))"
        by (auto simp: eq)
      from encodeTry_exec [OF encodeJob_exec [OF this]] show ?thesis
        by (simp add: jr jb)
    qed
    have d: "CallExec (execArgs (getScalingFilter (scalingStrategy s) (backgroundColor s)
                                   (customResolution s))
                         (Number_toString (customBitrate s) @ ''M''))
                \<in> set (fst (handleEncode e s))"
      if "fetchFile e f = Resolved b" "writeFile e ''input.mp4'' b = Resolved w" for b w
      using encodeJob_reaches_exec [OF that jr nz] by (simp add: eq jb)
    from a b c d show ?thesis
      by blast
  qed
  from bad_res bad_br good resolution_message_text bitrate_message_text show ?thesis
    by blast
qed

theorem custom_settings_validated_witness:
  "handleEncode demo_env (demo_custom\<lparr>customResolution := 50\<rparr>)
     = ([Notify (validationNotification resolution_message)], True)
   \<and> handleEncode demo_env (demo_custom\<lparr>customBitrate := 11\<rparr>)
     = ([Notify (validationNotification bitrate_message)], True)
   \<and> CallExec [''-i'', ''input.mp4'', ''-filter:v'',
        ''crop=min(iw'' @ [CHR 0x5C] @ '',ih):min(iw'' @ [CHR 0x5C] @ '',ih),scale=480:480'',
        ''-b:v'', ''1M'', ''-c:a'', ''copy'', ''output.mp4'']
       \<in> set (fst (handleEncode demo_env demo_custom))"
proof -
  have pre: "file (demo_custom\<lparr>customResolution := r, customBitrate := b\<rparr>) = Some demo_file"
    "loaded (demo_custom\<lparr>customResolution := r, customBitrate := b\<rparr>)"
    "selectedPreset (demo_custom\<lparr>customResolution := r, customBitrate := b\<rparr>) = NAME_CUSTOM"
    for r b
    by (simp_all add: demo_custom_def demo_state_def)
  have one: "Number_toString 1 = ''1''"
    by code_simp
  have a: "handleEncode demo_env (demo_custom\<lparr>customResolution := 50\<rparr>)
     = ([Notify (validationNotification resolution_message)], True)"
    using custom_settings_validated [OF pre [where r = 50 and b = 1], where e = demo_env]
    by (simp add: releasePrevious_def truthy_def demo_custom_def demo_state_def
          DEFAULT_RESOLUTION_def DEFAULT_BITRATE_def)
  have b: "handleEncode demo_env (demo_custom\<lparr>customBitrate := 11\<rparr>)
     = ([Notify (validationNotification bitrate_message)], True)"
    using custom_settings_validated [OF pre [where r = 480 and b = 11], where e = demo_env]
    by (simp add: releasePrevious_def truthy_def demo_custom_def demo_state_def
          DEFAULT_RESOLUTION_def DEFAULT_BITRATE_def)
  have env: "fetchFile demo_env demo_file = Resolved [1, 2, 3]"
    "writeFile demo_env ''input.mp4'' [1, 2, 3] = Resolved ()"
    by (simp_all add: demo_env_def demo_file_def)
  have c: "CallExec [''-i'', ''input.mp4'', ''-filter:v'',
        ''crop=min(iw'' @ [CHR 0x5C] @ '',ih):min(iw'' @ [CHR 0x5C] @ '',ih),scale=480:480'',
        ''-b:v'', ''1M'', ''-c:a'', ''copy'', ''output.mp4'']
       \<in> set (fst (handleEncode demo_env demo_custom))"
    using custom_settings_validated [OF pre [where r = 480 and b = 1], where e = demo_env] env
    by (simp add: demo_custom_def demo_state_def DEFAULT_RESOLUTION_def DEFAULT_BITRATE_def
          execArgs_def getScalingFilter_def Number_toString_480 one backslash_def)
  from a b c show ?thesis
    by simp
qed

lemma run_snoc: "run p (xs @ [x]) = apply_event (run p xs) x"
  by (simp add: run_def)

lemma releasePrevious_no_start:
  "SetIsEncoding True \<notin> set (releasePrevious s)"
  "Notify n \<notin> set (releasePrevious s)"
  by (simp_all add: releasePrevious_def)

lemma encodeTry_success_resolved:
  "Notify successNotification \<in> set (fst (encodeTry e s preset f)) \<Longrightarrow>
     \<exists>b w args code c. fetchFile e f = Resolved b \<and> writeFile e ''input.mp4'' b = Resolved w
        \<and> CallExec args \<in> set (fst (encodeTry e s preset f))
        \<and> snd (exec e args) = Resolved code \<and> readFile e ''output.mp4'' = Resolved c"
  by (auto simp: stage_defs split: promise.splits option.splits if_splits)

text \<open>
  C6. For every job that starts (the handler sets the in-flight flag): if the handler runs
  to its end, its last effect clears the flag, so the flag is clear afterwards whatever the
  page was; it has then shown the failure notification exactly when it has not shown the
  success notification, and it shows the success notification only when every call to the
  engine resolved. The handler runs to its end whenever every promise of the engine
  settles.
\<close>

theorem in_flight_flag_cleared:
  assumes "SetIsEncoding True \<in> set (fst (handleEncode e s))"
  shows "(snd (handleEncode e s) \<longrightarrow>
            last (fst (handleEncode e s)) = SetIsEncoding False
            \<and> \<not> isEncoding (run p (fst (handleEncode e s)))
            \<and> (Notify failureNotification \<in> set (fst (handleEncode e s)))
               = (Notify successNotification \<notin> set (fst (handleEncode e s))))
         \<and> (Notify successNotification \<in> set (fst (handleEncode e s)) \<longrightarrow>
              (\<exists>f b w args code c. file s = Some f \<and> fetchFile e f = Resolved b
                 \<and> writeFile e ''input.mp4'' b = Resolved w
                 \<and> CallExec args \<in> set (fst (handleEncode e s))
                 \<and> snd (exec e args) = Resolved code
                 \<and> readFile e ''output.mp4'' = Resolved c))
         \<and> (responsive e \<longrightarrow> snd (handleEncode e s))"
proof -
  from handleEncode_cases [of e s] assms releasePrevious_no_start [where s = s]
  obtain preset f where f: "file s = Some f"
    and eq: "handleEncode e s = (releasePrevious s @ fst (encodeJob e s preset f),
                                 snd (encodeJob e s preset f))"
    by auto
  let ?body = "encodeTry e s preset f"
  note rel = releasePrevious_no_start [where s = s]
  have succ: "(Notify successNotification \<in> set (fst (handleEncode e s)))
                = (snd ?body = Returned)"
    using encodeJob_cases [of e s preset f] encodeTry_success [of e s preset f] rel
    by (auto simp: eq)
  have fail: "(Notify failureNotification \<in> set (fst (handleEncode e s)))
                = (snd ?body = Threw)"
    using encodeJob_cases [of e s preset f] encodeTry_no_failure [of e s preset f] rel
    by (auto simp: eq)
  have fin: "snd (handleEncode e s) = (snd ?body \<noteq> Stuck)"
    using encodeJob_cases [of e s preset f] by (auto simp: eq)
  have lst: "last (fst (handleEncode e s)) = SetIsEncoding False
             \<and> \<not> isEncoding (run p (fst (handleEncode e s)))"
    if "snd (handleEncode e s)"
  proof -
    from that fin encodeJob_cases [of e s preset f]
    obtain evs where "fst (handleEncode e s) = evs @ [SetIsEncoding False]"
      by (auto simp: eq)
    then show ?thesis
      by (simp add: run_snoc)
  qed
  have a: "snd (handleEncode e s) \<longrightarrow>
            last (fst (handleEncode e s)) = SetIsEncoding False
            \<and> \<not> isEncoding (run p (fst (handleEncode e s)))
            \<and> (Notify failureNotification \<in> set (fst (handleEncode e s)))
               = (Notify successNotification \<notin> set (fst (handleEncode e s)))"
    using lst succ fail fin by (cases "snd ?body") auto
  have b: "\<exists>f b w args code c. file s = Some f \<and> fetchFile e f = Resolved b
                 \<and> writeFile e ''input.mp4'' b = Resolved w
                 \<and> CallExec args \<in> set (fst (handleEncode e s))
                 \<and> snd (exec e args) = Resolved code
                 \<and> readFile e ''output.mp4'' = Resolved c"
    if "Notify successNotification \<in> set (fst (handleEncode e s))"
  proof -
    from that succ encodeTry_success [of e s preset f]
    have "Notify successNotification \<in> set (fst ?body)"
      by simp
    from encodeTry_success_resolved [OF this] obtain b w args code c where
      r: "fetchFile e f = Resolved b" "writeFile e ''input.mp4'' b = Resolved w"
         "CallExec args \<in> set (fst ?body)" "snd (exec e args) = Resolved code"
         "readFile e ''output.mp4'' = Resolved c"
      by blast
    from r(3) encodeJob_cases [of e s preset f]
    have "CallExec args \<in> set (fst (handleEncode e s))"
      by (auto simp: eq)
    with f r show ?thesis
      by blast
  qed
  have c: "responsive e \<longrightarrow> snd (handleEncode e s)"
    using fin encodeTry_responsive [of e s preset f] by auto
  from a b c show ?thesis
    by blast
qed

lemma demo_responsive: "responsive demo_env" "responsive failing_env"
  by (simp_all add: responsive_def demo_env_def failing_env_def)

theorem in_flight_flag_cleared_witness:
  "SetIsEncoding True \<in> set (fst (handleEncode demo_env demo_state))
   \<and> SetIsEncoding True \<in> set (fst (handleEncode failing_env demo_state))
   \<and> responsive demo_env \<and> responsive failing_env
   \<and> last (fst (handleEncode demo_env demo_state)) = SetIsEncoding False
   \<and> last (fst (handleEncode failing_env demo_state)) = SetIsEncoding False
   \<and> \<not> isEncoding (run (demo_state\<lparr>isEncoding := True\<rparr>) (fst (handleEncode failing_env demo_state)))
   \<and> Notify successNotification \<in> set (fst (handleEncode demo_env demo_state))
   \<and> Notify failureNotification \<in> set (fst (handleEncode failing_env demo_state))"
proof -
  have ok: "SetIsEncoding True \<in> set (fst (handleEncode demo_env demo_state))"
    by code_simp
  have ko: "SetIsEncoding True \<in> set (fst (handleEncode failing_env demo_state))"
    by code_simp
  have s1: "Notify successNotification \<in> set (fst (handleEncode demo_env demo_state))"
    by code_simp
  have s2: "Notify successNotification \<notin> set (fst (handleEncode failing_env demo_state))"
    by code_simp
  from in_flight_flag_cleared [OF ok, of "demo_state\<lparr>isEncoding := True\<rparr>"]
    in_flight_flag_cleared [OF ko, of "demo_state\<lparr>isEncoding := True\<rparr>"]
    demo_responsive ok ko s1 s2
  show ?thesis
    by simp
qed

text \<open>
  C7 on the code. The first job of the example leaves the progress at 1. When the handler
  is called again, its effects up to and including the call of \<^verbatim>\<open>exec\<close> set the in-flight
  flag and clear the logs, and leave the progress at 1: nothing resets it before the engine
  reports progress for the new job. The time estimator, run on that page, takes the stale
  progress for progress of the new job and captures its start time at once.
\<close>

theorem stale_progress_at_second_job:
  "progress after_first_job = 1 \<and> \<not> isEncoding after_first_job
   \<and> take 6 (fst (handleEncode demo_env after_first_job))
       = [SetEncodedVideoUrl None, SetIsEncoding True, ClearLogs, CallFetchFile demo_file,
          CallWriteFile ''input.mp4'' [1, 2, 3], CallExec demo_exec_args]
   \<and> isEncoding (run after_first_job (take 6 (fst (handleEncode demo_env after_first_job))))
   \<and> progress (run after_first_job (take 6 (fst (handleEncode demo_env after_first_job)))) = 1
   \<and> encodingTimeEffect True
        (progress (run after_first_job (take 6 (fst (handleEncode demo_env after_first_job)))))
        5000 initialEncodingTime
       = \<lparr>elapsedTime = 0, estimatedTime = 0, startTimeRef = Some 5000\<rparr>"
  by code_simp

lemma urlView_apply: "urlView (apply_event s ev) = url_step (urlView s) ev"
  by (cases "(s, ev)" rule: apply_event.cases) (auto simp: urlView_def)

lemma urlView_run: "urlView (run s evs) = foldl url_step (urlView s) evs"
  by (induction evs arbitrary: s) (simp_all add: run_def urlView_apply)

lemma url_step_neutral: "\<not> isUrlEvent ev \<Longrightarrow> url_step v ev = v"
  by (cases "(v, ev)" rule: url_step.cases) (simp_all add: isUrlEvent_def)

lemma foldl_url_filter: "foldl url_step v evs = foldl url_step v (filter isUrlEvent evs)"
  by (induction evs arbitrary: v) (simp_all add: url_step_neutral)

lemma encodeTry_url_events:
  "filter isUrlEvent (fst (encodeTry e s preset f)) = []
   \<or> (\<exists>c. filter isUrlEvent (fst (encodeTry e s preset f))
           = [CreateObjectURL c ''video/mp4'' (createObjectURL e c ''video/mp4''),
              SetEncodedVideoUrl (Some (createObjectURL e c ''video/mp4''))])"
  by (auto simp: stage_defs isUrlEvent_def comp_def split: promise.splits option.splits if_splits)

lemma encodeJob_url_events:
  "filter isUrlEvent (fst (encodeJob e s preset f)) = filter isUrlEvent (fst (encodeTry e s preset f))"
  using encodeJob_cases [of e s preset f] by (auto simp: isUrlEvent_def)

lemma handleEncode_url_events:
  "filter isUrlEvent (fst (handleEncode e s)) = releasePrevious s
   \<or> (\<exists>c. filter isUrlEvent (fst (handleEncode e s))
           = releasePrevious s @
             [CreateObjectURL c ''video/mp4'' (createObjectURL e c ''video/mp4''),
              SetEncodedVideoUrl (Some (createObjectURL e c ''video/mp4''))])
   \<or> fst (handleEncode e s) = []"
proof -
  have rel: "filter isUrlEvent (releasePrevious s) = releasePrevious s"
    by (simp add: releasePrevious_def isUrlEvent_def)
  from handleEncode_cases [of e s] show ?thesis
  proof (elim disjE exE conjE)
    fix preset f
    assume "handleEncode e s = (releasePrevious s @ fst (encodeJob e s preset f), snd (encodeJob e s preset f))"
    with encodeTry_url_events [of e s preset f] show ?thesis
      by (auto simp: rel encodeJob_url_events)
  qed (simp_all add: rel isUrlEvent_def)
qed


lemma urlInvariant_view:
  "urlInvariant s = (fst (urlView s) \<noteq> Some [] \<and>
      snd (urlView s) \<subseteq> (case fst (urlView s) of None \<Rightarrow> {} | Some u \<Rightarrow> {u}))"
  by (simp add: urlInvariant_def urlView_def)

lemma release_cases:
  assumes "urlInvariant s"
  shows "(releasePrevious s = [] \<and> urlView s = (None, {}))
         \<or> (\<exists>u. u \<noteq> [] \<and> releasePrevious s = [SetEncodedVideoUrl None]
               \<and> fst (urlView s) = Some u
               \<and> (snd (urlView s) = {} \<or> snd (urlView s) = {u}))"
  using assms
  by (cases "encodedVideoUrl s")
     (auto simp: urlInvariant_def urlView_def releasePrevious_def truthy_def subset_singleton_iff)

lemma createObjectURL_nonempty: "createObjectURL e c m \<noteq> []"
  by (simp add: createObjectURL_def)

lemma url_prefix_views:
  assumes inv: "urlInvariant s"
    and F: "F = releasePrevious s \<or> F = releasePrevious s @ [CreateObjectURL c m u, SetEncodedVideoUrl (Some u)]"
    and P: "prefix P F"
  shows "\<exists>x. snd (foldl url_step (urlView s) P) \<subseteq> {x}"
  using release_cases [OF inv] F P
  by (cases "urlView s") (auto simp: prefix_Cons truthy_def)

lemma url_before_create:
  assumes inv: "urlInvariant s"
    and F: "F = releasePrevious s \<or> F = releasePrevious s @ [CreateObjectURL c m u, SetEncodedVideoUrl (Some u)]"
    and P: "prefix (P @ [CreateObjectURL c' m' u']) F"
  shows "snd (foldl url_step (urlView s) P) = {}"
  using release_cases [OF inv] F P
  by (cases "urlView s") (auto simp: prefix_Cons truthy_def Cons_eq_append_conv append_eq_Cons_conv)

lemma url_final_view:
  assumes inv: "urlInvariant s"
    and F: "F = releasePrevious s \<or> F = releasePrevious s @ [CreateObjectURL c m u, SetEncodedVideoUrl (Some u)]"
    and u: "u \<noteq> []"
  shows "fst (foldl url_step (urlView s) F) \<noteq> Some [] \<and>
      snd (foldl url_step (urlView s) F)
        \<subseteq> (case fst (foldl url_step (urlView s) F) of None \<Rightarrow> {} | Some u \<Rightarrow> {u})"
  using release_cases [OF inv] F u
  by (cases "urlView s") (auto simp: truthy_def)

text \<open>
  C9. On a page where the only live object URL, if any, is the stored one: at every moment
  of a run of the handler at most one object URL is live; at the moment a new object URL is
  created none is live, so the URL of the previous result has been revoked before; and at
  the end the only live object URL, if any, is again the stored one.
\<close>

theorem previous_url_released_first:
  assumes "urlInvariant s"
  shows "(prefix pre (fst (handleEncode e s)) \<longrightarrow> (\<exists>x. liveUrls (run s pre) \<subseteq> {x}))
         \<and> (prefix (pre @ [CreateObjectURL c m u]) (fst (handleEncode e s)) \<longrightarrow>
              liveUrls (run s pre) = {}
              \<and> (\<forall>old. encodedVideoUrl s = Some old \<longrightarrow> old \<notin> liveUrls (run s pre)))
         \<and> urlInvariant (run s (fst (handleEncode e s)))"
proof -
  let ?tr = "fst (handleEncode e s)"
  let ?F = "filter isUrlEvent ?tr"
  have view: "urlView (run s evs) = foldl url_step (urlView s) (filter isUrlEvent evs)" for evs
    using urlView_run [of s evs] foldl_url_filter [of "urlView s" evs] by simp
  have live: "liveUrls (run s evs) = snd (foldl url_step (urlView s) (filter isUrlEvent evs))" for evs
    using arg_cong [OF view [of evs], of snd] by (simp add: urlView_def)
  consider (nil) "?tr = []"
    | (some) c' where "?F = releasePrevious s
        \<or> ?F = releasePrevious s @
             [CreateObjectURL c' ''video/mp4'' (createObjectURL e c' ''video/mp4''),
              SetEncodedVideoUrl (Some (createObjectURL e c' ''video/mp4''))]"
    using handleEncode_url_events [of e s] by blast
  then show ?thesis
  proof cases
    case nil
    with assms show ?thesis
      by (auto simp: run_def urlInvariant_def split: option.splits)
  next
    case some
    have a: "\<exists>x. liveUrls (run s pre) \<subseteq> {x}" if "prefix pre ?tr"
      using url_prefix_views [OF assms some filter_mono_prefix [OF that]] by (simp add: live)
    have b: "liveUrls (run s pre) = {}" if "prefix (pre @ [CreateObjectURL c m u]) ?tr"
    proof -
      from filter_mono_prefix [OF that, of isUrlEvent]
      have "prefix (filter isUrlEvent pre @ [CreateObjectURL c m u]) ?F"
        by (simp add: isUrlEvent_def)
      from url_before_create [OF assms some this] show ?thesis
        by (simp add: live)
    qed
    have c: "urlInvariant (run s ?tr)"
      using url_final_view [OF assms some createObjectURL_nonempty] view [of ?tr]
      by (simp add: urlInvariant_view)
    from a b c show ?thesis
      by auto
  qed
qed

lemma after_first_job_urls:
  "encodedVideoUrl after_first_job = Some ''blob:id1''" "liveUrls after_first_job = {''blob:id1''}"
  by code_simp+

theorem previous_url_released_first_witness:
  "urlInvariant after_first_job
   \<and> encodedVideoUrl after_first_job = Some ''blob:id1''
   \<and> prefix (take 10 (fst (handleEncode second_env after_first_job))
              @ [CreateObjectURL [7, 8, 9] ''video/mp4'' ''blob:id2''])
        (fst (handleEncode second_env after_first_job))
   \<and> ''blob:id1'' \<notin> liveUrls (run after_first_job (take 10 (fst (handleEncode second_env after_first_job))))
   \<and> urlInvariant (run after_first_job (fst (handleEncode second_env after_first_job)))"
proof -
  have inv: "urlInvariant after_first_job"
    by (simp add: urlInvariant_def after_first_job_urls)
  have pre: "prefix (take 10 (fst (handleEncode second_env after_first_job))
              @ [CreateObjectURL [7, 8, 9] ''video/mp4'' ''blob:id2''])
        (fst (handleEncode second_env after_first_job))"
    by code_simp
  from previous_url_released_first [OF inv, of "take 10 (fst (handleEncode second_env after_first_job))"
      second_env "[7, 8, 9]" "''video/mp4''" "''blob:id2''"] inv pre after_first_job_urls
  show ?thesis
    by simp
qed

end
